theory Spec2Isabelle
  imports Complex_Main
begin

section \<open>Financing Request Portal: validation rules, form controller, submission\<close>

text \<open>
  The development follows the current revision of the portal: the constants and the yup
  schema of \<^verbatim>\<open>utils/Constants.ts\<close> (the revision that exports
  \<^verbatim>\<open>getMinStartDate\<close> and \<^verbatim>\<open>calculateValidityPeriod\<close>) and the
  \<^verbatim>\<open>FinancingForm\<close> component that imports them. Earlier revisions of the same
  two files are kept in the repository; where they differ, the earlier code is modelled
  under a name ending in \<open>_legacy\<close>.

  Strings are \<open>string\<close>; the empty string stands for an empty (or absent) text field.
\<close>

subsection \<open>Time values and calendar fields of the JavaScript \<^verbatim>\<open>Date\<close>\<close>

text \<open>
  The code computes with dates through the dayjs library, which wraps the JavaScript
  \<^verbatim>\<open>Date\<close>. Neither is part of the repository; both are modelled here from their
  published definitions, as far as the portal uses them. A time value is an integer number
  of milliseconds. The calendar functions are those of ECMAScript (Day, TimeWithinDay,
  DaysInYear, DayFromYear, YearFromTime, InLeapYear, MonthFromTime, DateFromTime, MakeTime,
  MakeDay, MakeDate), on the proleptic Gregorian calendar.

  Local time is a fixed offset from UTC (no change of offset inside the periods compared);
  a \<open>Dayjs\<close> value is the local time value of the wrapped \<^verbatim>\<open>Date\<close>. The
  same operations in a zone whose offset changes are given further down, under names ending
  in \<open>_in\<close>, and are shown to agree with these when the offset is fixed.
\<close>

definition msPerDay :: int where
  "msPerDay = 86400000"

definition Day :: "int \<Rightarrow> int" where
  "Day t = t div msPerDay"

definition TimeWithinDay :: "int \<Rightarrow> int" where
  "TimeWithinDay t = t mod msPerDay"

definition DaysInYear :: "int \<Rightarrow> int" where
  "DaysInYear y =
     (if y mod 4 \<noteq> 0 then 365
      else if y mod 100 \<noteq> 0 then 366
      else if y mod 400 \<noteq> 0 then 365
      else 366)"

definition DayFromYear :: "int \<Rightarrow> int" where
  "DayFromYear y =
     365 * (y - 1970) + (y - 1969) div 4 - (y - 1901) div 100 + (y - 1601) div 400"

text \<open>
  ECMAScript defines the year of a day as the largest \<open>y\<close> with \<open>DayFromYear y\<close> not
  after it. It is computed from an estimate that is off by at most one year; lemmas
  \<open>YearFromDay_bounds\<close> and \<open>YearFromDay_unique\<close> below show that the result is that year.
\<close>

definition YearFromDay :: "int \<Rightarrow> int" where
  "YearFromDay n =
     (let y0 = 1970 + (400 * n) div 146097
      in if DayFromYear (y0 + 1) \<le> n then y0 + 1
         else if n < DayFromYear y0 then y0 - 1
         else y0)"

definition YearFromTime :: "int \<Rightarrow> int" where
  "YearFromTime t = YearFromDay (Day t)"

definition InLeapYear :: "int \<Rightarrow> int" where
  "InLeapYear t = (if DaysInYear (YearFromTime t) = 366 then 1 else 0)"

definition DayWithinYear :: "int \<Rightarrow> int" where
  "DayWithinYear t = Day t - DayFromYear (YearFromTime t)"

text \<open>The number of days of a year before its month \<open>m\<close> (0 is January).\<close>

definition DayFromMonth :: "int \<Rightarrow> int \<Rightarrow> int" where
  "DayFromMonth m leap =
     (if m = 0 then 0
      else if m = 1 then 31
      else if m = 2 then 59 + leap
      else if m = 3 then 90 + leap
      else if m = 4 then 120 + leap
      else if m = 5 then 151 + leap
      else if m = 6 then 181 + leap
      else if m = 7 then 212 + leap
      else if m = 8 then 243 + leap
      else if m = 9 then 273 + leap
      else if m = 10 then 304 + leap
      else 334 + leap)"

definition MonthFromDayWithinYear :: "int \<Rightarrow> int \<Rightarrow> int" where
  "MonthFromDayWithinYear d leap =
     (if d < 31 then 0
      else if d < 59 + leap then 1
      else if d < 90 + leap then 2
      else if d < 120 + leap then 3
      else if d < 151 + leap then 4
      else if d < 181 + leap then 5
      else if d < 212 + leap then 6
      else if d < 243 + leap then 7
      else if d < 273 + leap then 8
      else if d < 304 + leap then 9
      else if d < 334 + leap then 10
      else 11)"

definition MonthFromTime :: "int \<Rightarrow> int" where
  "MonthFromTime t = MonthFromDayWithinYear (DayWithinYear t) (InLeapYear t)"

definition DateFromTime :: "int \<Rightarrow> int" where
  "DateFromTime t = DayWithinYear t - DayFromMonth (MonthFromTime t) (InLeapYear t) + 1"

definition MakeTime :: "int \<Rightarrow> int \<Rightarrow> int \<Rightarrow> int \<Rightarrow> int" where
  "MakeTime h m s ms = h * 3600000 + m * 60000 + s * 1000 + ms"

definition MakeDay :: "int \<Rightarrow> int \<Rightarrow> int \<Rightarrow> int" where
  "MakeDay year month date =
     (let ym = year + month div 12;
          mn = month mod 12;
          leap = (if DaysInYear ym = 366 then 1 else 0)
      in DayFromYear ym + DayFromMonth mn leap + date - 1)"

definition MakeDate :: "int \<Rightarrow> int \<Rightarrow> int" where
  "MakeDate day time = day * msPerDay + time"

text \<open>Month lengths, for stating which \<open>DateString\<close>s are calendar dates.\<close>

definition DaysInMonth :: "int \<Rightarrow> int \<Rightarrow> int" where
  "DaysInMonth y m =
     (if m = 1 then (if DaysInYear y = 366 then 29 else 28)
      else if m = 3 \<or> m = 5 \<or> m = 8 \<or> m = 10 then 30
      else 31)"

definition month_length :: "int \<Rightarrow> int \<Rightarrow> int" where
  "month_length m leap =
     (if m = 1 then 28 + leap else if m = 3 \<or> m = 5 \<or> m = 8 \<or> m = 10 then 30 else 31)"

text \<open>
  \<^verbatim>\<open>new Date(y, m, dt, 0, 0, 0, 0)\<close>: a year from 0 to 99 means 1900 + y.
  \<^verbatim>\<open>setDate\<close>, \<^verbatim>\<open>setMonth\<close> and \<^verbatim>\<open>setHours\<close> rebuild the time value from
  the fields, so a field out of range carries over.
\<close>

definition new_Date :: "int \<Rightarrow> int \<Rightarrow> int \<Rightarrow> int" where
  "new_Date y m dt =
     (let yr = (if 0 \<le> y \<and> y \<le> 99 then 1900 + y else y)
      in MakeDate (MakeDay yr m dt) (MakeTime 0 0 0 0))"

definition setDate :: "int \<Rightarrow> int \<Rightarrow> int" where
  "setDate t dt = MakeDate (MakeDay (YearFromTime t) (MonthFromTime t) dt) (TimeWithinDay t)"

definition setMonth :: "int \<Rightarrow> int \<Rightarrow> int" where
  "setMonth t m = MakeDate (MakeDay (YearFromTime t) m (DateFromTime t)) (TimeWithinDay t)"

definition setHours :: "int \<Rightarrow> int \<Rightarrow> int \<Rightarrow> int \<Rightarrow> int \<Rightarrow> int" where
  "setHours t h m s ms = MakeDate (Day t) (MakeTime h m s ms)"

subsection \<open>The dayjs operations used by the portal\<close>

text \<open>
  The string \<^verbatim>\<open>YYYY-MM-DD\<close> of a date input, by its three numbers (month 1 to 12).
\<close>

record DateString =
  ds_year :: int
  ds_month :: int
  ds_day :: int

definition isDate :: "DateString \<Rightarrow> bool" where
  "isDate v \<longleftrightarrow>
     1 \<le> ds_month v \<and> ds_month v \<le> 12
     \<and> 1 \<le> ds_day v \<and> ds_day v \<le> DaysInMonth (ds_year v) (ds_month v - 1)"

type_synonym Dayjs = int

text \<open>\<^verbatim>\<open>dayjs(value)\<close> on a date string: local midnight of that date.\<close>

definition dayjs :: "DateString \<Rightarrow> Dayjs" where
  "dayjs v = new_Date (ds_year v) (ds_month v - 1) (ds_day v)"

definition startOf_day :: "Dayjs \<Rightarrow> Dayjs" where
  "startOf_day x = setHours x 0 0 0 0"

definition endOf_day :: "Dayjs \<Rightarrow> Dayjs" where
  "endOf_day x = setHours x 23 59 59 999"

text \<open>
  \<^verbatim>\<open>isBefore\<close> and \<^verbatim>\<open>isSame\<close> without a unit compare the time values;
  with the unit \<^verbatim>\<open>'day'\<close>, \<^verbatim>\<open>isSame\<close> and \<^verbatim>\<open>isAfter\<close> compare the
  argument with the start and the end of the receiver's day, and the plugin's
  \<^verbatim>\<open>isSameOrAfter\<close> is their disjunction.
\<close>

definition isBefore :: "Dayjs \<Rightarrow> Dayjs \<Rightarrow> bool" where
  "isBefore this that \<longleftrightarrow> this < that"

definition isSame :: "Dayjs \<Rightarrow> Dayjs \<Rightarrow> bool" where
  "isSame this that \<longleftrightarrow> this \<le> that \<and> that \<le> this"

definition isSame_day :: "Dayjs \<Rightarrow> Dayjs \<Rightarrow> bool" where
  "isSame_day this that \<longleftrightarrow> startOf_day this \<le> that \<and> that \<le> endOf_day this"

definition isAfter_day :: "Dayjs \<Rightarrow> Dayjs \<Rightarrow> bool" where
  "isAfter_day this that \<longleftrightarrow> that < startOf_day this"

definition isSameOrAfter_day :: "Dayjs \<Rightarrow> Dayjs \<Rightarrow> bool" where
  "isSameOrAfter_day this that \<longleftrightarrow> isSame_day this that \<or> isAfter_day this that"

text \<open>
  \<^verbatim>\<open>daysInMonth()\<close> is the date of the end of the month, which dayjs builds as day 0 of
  the next month. \<^verbatim>\<open>set('month', arg)\<close> moves to day 1, sets the month, and then
  sets the date to the smaller of the original date and the length of the target month.
  \<^verbatim>\<open>add(n, 'month')\<close> is \<^verbatim>\<open>set('month', $M + n)\<close>; \<^verbatim>\<open>add(n, 'day')\<close> sets
  the date to \<^verbatim>\<open>$D + n\<close>.
\<close>

definition daysInMonth :: "Dayjs \<Rightarrow> int" where
  "daysInMonth x = DateFromTime (endOf_day (new_Date (YearFromTime x) (MonthFromTime x + 1) 0))"

definition set_month :: "Dayjs \<Rightarrow> int \<Rightarrow> Dayjs" where
  "set_month x arg =
     (let date1 = setDate x 1;
          date2 = setMonth date1 arg
      in setDate date2 (min (DateFromTime x) (daysInMonth date2)))"

definition add_month :: "Dayjs \<Rightarrow> int \<Rightarrow> Dayjs" where
  "add_month x n = set_month x (MonthFromTime x + n)"

definition add_day :: "Dayjs \<Rightarrow> int \<Rightarrow> Dayjs" where
  "add_day x n = setDate x (DateFromTime x + n)"

text \<open>
  The month difference behind \<^verbatim>\<open>diff\<close> (dayjs \<^verbatim>\<open>utils.js\<close>):
  \<^verbatim>\<open>
    const monthDiff = (a, b) => {
      if (a.date() < b.date()) return -monthDiff(b, a)
      const wholeMonthDiff = ((b.year() - a.year()) * 12) + (b.month() - a.month())
      const anchor = a.clone().add(wholeMonthDiff, C.M)
      const c = b - anchor < 0
      const anchor2 = a.clone().add(wholeMonthDiff + (c ? -1 : 1), C.M)
      return +(-(wholeMonthDiff + ((b - anchor) / (c ? (anchor - anchor2) :
        (anchor2 - anchor)))) || 0)
    }
  \<close>
  and \<^verbatim>\<open>this.diff(that, 'year', true)\<close> is \<^verbatim>\<open>monthDiff(this, that) / 12\<close>. The
  numbers are reals here; the two anchors are a month apart, so the divisor is not zero.
\<close>

function monthDiff :: "Dayjs \<Rightarrow> Dayjs \<Rightarrow> real" where
  "monthDiff a b =
     (if DateFromTime a < DateFromTime b then - monthDiff b a
      else
        let wholeMonthDiff = (YearFromTime b - YearFromTime a) * 12
                               + (MonthFromTime b - MonthFromTime a);
            anchor = add_month a wholeMonthDiff;
            c = (b - anchor < 0);
            anchor2 = add_month a (wholeMonthDiff + (if c then - 1 else 1))
        in - (of_int wholeMonthDiff
              + of_int (b - anchor)
                / of_int (if c then anchor - anchor2 else anchor2 - anchor)))"
  by pat_completeness auto
termination
  by (relation "measure (\<lambda>(a, b). if DateFromTime a < DateFromTime b then 1 else 0)") auto

declare monthDiff.simps [simp del]

definition diff_year :: "Dayjs \<Rightarrow> Dayjs \<Rightarrow> real" where
  "diff_year this that = monthDiff this that / 12"

subsection \<open>Numbers as text\<close>

definition digit_char :: "nat \<Rightarrow> char" where
  "digit_char d = char_of (48 + d)"

fun string_of_nat :: "nat \<Rightarrow> string" where
  "string_of_nat n =
     (if n < 10 then [digit_char n] else string_of_nat (n div 10) @ [digit_char (n mod 10)])"

declare string_of_nat.simps [simp del]

text \<open>The number written by a text of decimal digits.\<close>

definition digits_value :: "string \<Rightarrow> nat" where
  "digits_value s = foldl (\<lambda>acc c. 10 * acc + (of_char c - 48)) 0 s"

text \<open>\<^verbatim>\<open>String(n)\<close> for an integer.\<close>

definition String_of_int :: "int \<Rightarrow> string" where
  "String_of_int i = (if i < 0 then CHR ''-'' # string_of_nat (nat (- i)) else string_of_nat (nat i))"

text \<open>
  The \<^verbatim>\<open>padStart\<close> of dayjs, with pad \<^verbatim>\<open>'0'\<close>: a text already as long as asked
  stays as it is.
\<close>

definition padStart :: "int \<Rightarrow> nat \<Rightarrow> string" where
  "padStart i len =
     (let s = String_of_int i
      in if length s \<ge> len then s else replicate (len - length s) CHR ''0'' @ s)"

text \<open>\<^verbatim>\<open>format('YYYY-MM-DD')\<close>.\<close>

definition format_YYYY_MM_DD :: "Dayjs \<Rightarrow> string" where
  "format_YYYY_MM_DD x =
     padStart (YearFromTime x) 4 @ ''-'' @ padStart (MonthFromTime x + 1) 2 @ ''-''
       @ padStart (DateFromTime x) 2"

text \<open>
  \<^verbatim>\<open>Date.prototype.toISOString\<close> on a UTC time value: years 0 to 9999 have four
  digits, other years a sign and six digits; then \<^verbatim>\<open>-MM-DDTHH:mm:ss.sssZ\<close>.
\<close>

definition zero_pad :: "nat \<Rightarrow> nat \<Rightarrow> string" where
  "zero_pad len n = replicate (len - length (string_of_nat n)) CHR ''0'' @ string_of_nat n"

definition iso_year :: "int \<Rightarrow> string" where
  "iso_year y =
     (if 0 \<le> y \<and> y \<le> 9999 then zero_pad 4 (nat y)
      else if y < 0 then CHR ''-'' # zero_pad 6 (nat (- y))
      else CHR ''+'' # zero_pad 6 (nat y))"

definition toISOString :: "int \<Rightarrow> string" where
  "toISOString t =
     (let tod = TimeWithinDay t
      in iso_year (YearFromTime t) @ ''-'' @ zero_pad 2 (nat (MonthFromTime t + 1)) @ ''-''
         @ zero_pad 2 (nat (DateFromTime t)) @ ''T''
         @ zero_pad 2 (nat (tod div 3600000)) @ '':''
         @ zero_pad 2 (nat (tod mod 3600000 div 60000)) @ '':''
         @ zero_pad 2 (nat (tod mod 60000 div 1000)) @ ''.''
         @ zero_pad 3 (nat (tod mod 1000)) @ ''Z'')"

text \<open>\<^verbatim>\<open>s.split('T')[0]\<close>: the text before the first \<^verbatim>\<open>T\<close>.\<close>

definition split_T_0 :: "string \<Rightarrow> string" where
  "split_T_0 s = takeWhile (\<lambda>c. c \<noteq> CHR ''T'') s"

subsection \<open>Form values and component state\<close>

text \<open>
  A date field holds the value of an \<^verbatim>\<open><input type="date">\<close>: empty (\<open>None\<close>)
  or a \<open>DateString\<close>.
\<close>

text \<open>
  \<^verbatim>\<open>FinancingFormValues\<close>. The amount is registered with
  \<^verbatim>\<open>valueAsNumber\<close>; \<open>None\<close> stands for \<^verbatim>\<open>NaN\<close> (empty input).
\<close>

record FinancingFormValues =
  name :: string
  country :: string
  projectCode :: string
  description :: string
  amount :: "real option"
  currency :: string
  startDate :: "DateString option"
  endDate :: "DateString option"

text \<open>The component: the form values held by react-hook-form and the two \<^verbatim>\<open>useState\<close> flags.\<close>

record FormState =
  formValues :: FinancingFormValues
  isOpec :: bool
  isSubmitting :: bool

subsection \<open>The yup tests used by the schema\<close>

text \<open>
  A failed test reports the message given in the schema; a value of the wrong type (the
  amount \<^verbatim>\<open>NaN\<close>) reports the type error of yup. A field is valid when its list of
  errors is empty. For a string, \<^verbatim>\<open>required\<close> rejects the empty string and nothing else
  (the schema applies no \<^verbatim>\<open>trim\<close>).
\<close>

datatype yup_error = Message string | TypeError

definition string_required :: "string \<Rightarrow> string \<Rightarrow> yup_error list" where
  "string_required msg v = (if length v = 0 then [Message msg] else [])"



definition date_required :: "string \<Rightarrow> DateString option \<Rightarrow> yup_error list" where
  "date_required msg v = (case v of None \<Rightarrow> [Message msg] | Some _ \<Rightarrow> [])"

text \<open>
  The regular expressions of the schema are sequences of single-character atoms with a
  fixed repetition count, anchored at both ends; \<^verbatim>\<open>$\<close> (no \<^verbatim>\<open>m\<close> flag) is the end
  of the input. A range compares character codes.
\<close>

datatype rx_atom = CharRange char char | CharLit char

datatype rx_item = Times rx_atom nat

fun atom_matches :: "rx_atom \<Rightarrow> char \<Rightarrow> bool" where
  "atom_matches (CharRange lo hi) c \<longleftrightarrow>
     (of_char lo :: nat) \<le> of_char c \<and> (of_char c :: nat) \<le> of_char hi"
| "atom_matches (CharLit x) c \<longleftrightarrow> c = x"

fun match_times :: "rx_atom \<Rightarrow> nat \<Rightarrow> string \<Rightarrow> string option" where
  "match_times a 0 s = Some s"
| "match_times a (Suc n) [] = None"
| "match_times a (Suc n) (c # cs) = (if atom_matches a c then match_times a n cs else None)"

fun regex_test :: "rx_item list \<Rightarrow> string \<Rightarrow> bool" where
  "regex_test [] s \<longleftrightarrow> s = []"
| "regex_test (Times a n # items) s \<longleftrightarrow>
     (case match_times a n s of None \<Rightarrow> False | Some r \<Rightarrow> regex_test items r)"

definition string_matches :: "rx_item list \<Rightarrow> string \<Rightarrow> string \<Rightarrow> yup_error list" where
  "string_matches rx msg v = (if regex_test rx v then [] else [Message msg])"

text \<open>
  The result of a custom \<^verbatim>\<open>test\<close> function: \<^verbatim>\<open>true\<close>, \<^verbatim>\<open>false\<close> (the test's own
  message is reported) or \<^verbatim>\<open>this.createError({ message })\<close>.
\<close>

datatype test_result = Valid | Invalid | CreateError string

definition test_errors :: "string \<Rightarrow> test_result \<Rightarrow> yup_error list" where
  "test_errors msg r =
     (case r of Valid \<Rightarrow> [] | Invalid \<Rightarrow> [Message msg] | CreateError m \<Rightarrow> [Message m])"

subsection \<open>\<^verbatim>\<open>utils/Constants.ts\<close>\<close>

definition MIN_YEARS :: int where "MIN_YEARS = 1"
definition MAX_YEARS :: int where "MAX_YEARS = 3"
definition MIN_DAYS_FROM_NOW :: int where "MIN_DAYS_FROM_NOW = 15"

text \<open>
  \<^verbatim>\<open>getMinStartDate\<close>; the argument is \<^verbatim>\<open>dayjs()\<close>, the local time of the call.
\<close>

definition getMinStartDate :: "Dayjs \<Rightarrow> string" where
  "getMinStartDate now =
     (let minDate = add_day now MIN_DAYS_FROM_NOW in format_YYYY_MM_DD minDate)"

definition calculateValidityPeriod :: "DateString \<Rightarrow> DateString \<Rightarrow> real" where
  "calculateValidityPeriod start_date end_date =
     (let start = dayjs start_date; end = dayjs end_date in diff_year end start)"

text \<open>The schema, field by field. \<^verbatim>\<open>/^[A-Z]{4}-[1-9]{4}$/\<close>:\<close>

definition projectCode_regex :: "rx_item list" where
  "projectCode_regex =
     [Times (CharRange CHR ''A'' CHR ''Z'') 4, Times (CharLit CHR ''-'') 1,
      Times (CharRange CHR ''1'' CHR ''9'') 4]"

definition name_errors :: "string \<Rightarrow> yup_error list" where
  "name_errors v = string_required ''Name is required'' v"


definition projectCode_errors :: "string \<Rightarrow> yup_error list" where
  "projectCode_errors v =
     string_matches projectCode_regex ''Invalid project code format (e.g., ABCD-1234)'' v
     @ string_required ''Project code is required'' v"




text \<open>
  \<^verbatim>\<open>
    function (value) {
      if (!value) return false
      const minDate = dayjs().add(VALIDITY_PERIOD.MIN_DAYS_FROM_NOW, 'day')
      const selectedDate = dayjs(value)
      return selectedDate.isSameOrAfter(minDate, 'day')
    }
  \<close>
\<close>

definition min_start_date_test :: "Dayjs \<Rightarrow> DateString option \<Rightarrow> test_result" where
  "min_start_date_test now value =
     (case value of
        None \<Rightarrow> Invalid
      | Some v \<Rightarrow>
          let minDate = add_day now MIN_DAYS_FROM_NOW;
              selectedDate = dayjs v
          in if isSameOrAfter_day selectedDate minDate then Valid else Invalid)"

definition startDate_errors :: "Dayjs \<Rightarrow> DateString option \<Rightarrow> yup_error list" where
  "startDate_errors now v =
     date_required ''Start date is required'' v
     @ test_errors ''Start date must be at least 15 days from today'' (min_start_date_test now v)"

text \<open>
  The \<^verbatim>\<open>validity-period\<close> test of the end date; \<open>parent_startDate\<close> is
  \<^verbatim>\<open>this.parent.startDate\<close>.
\<close>

definition validity_period_test ::
  "DateString option \<Rightarrow> DateString option \<Rightarrow> test_result" where
  "validity_period_test parent_startDate value =
     (case value of
        None \<Rightarrow> Invalid
      | Some v \<Rightarrow>
         (case parent_startDate of
            None \<Rightarrow> Invalid
          | Some start_date \<Rightarrow>
              let start = dayjs start_date;
                  end = dayjs v
              in if isBefore end start \<or> isSame end start
                 then CreateError ''End date must be after start date''
                 else
                   let validityPeriod = calculateValidityPeriod start_date v
                   in if validityPeriod < of_int MIN_YEARS
                      then CreateError (''Validity period must be at least ''
                                          @ String_of_int MIN_YEARS @ '' year'')
                      else if validityPeriod > of_int MAX_YEARS
                      then CreateError (''Validity period cannot exceed ''
                                          @ String_of_int MAX_YEARS @ '' years'')
                      else Valid))"

definition endDate_errors :: "DateString option \<Rightarrow> DateString option \<Rightarrow> yup_error list" where
  "endDate_errors parent_startDate v =
     date_required ''End date is required'' v
     @ test_errors ''Invalid validity period'' (validity_period_test parent_startDate v)"


subsection \<open>OPEC countries and the country effect\<close>

definition OPEC_COUNTRIES :: "string list" where
  "OPEC_COUNTRIES =
     [''DZ'', ''AO'', ''CG'', ''GQ'', ''GA'', ''IR'', ''IQ'', ''KW'', ''LY'', ''NG'',
      ''SA'', ''AE'', ''VE'']"

text \<open>\<^verbatim>\<open>Array.prototype.includes\<close> on strings.\<close>

fun array_includes :: "string list \<Rightarrow> string \<Rightarrow> bool" where
  "array_includes [] x = False"
| "array_includes (y # ys) x = (if y = x then True else array_includes ys x)"

text \<open>\<^verbatim>\<open>setValue(field, v)\<close> of react-hook-form, for the currency field.\<close>

definition setValue_currency :: "string \<Rightarrow> FormState \<Rightarrow> FormState" where
  "setValue_currency v st = st\<lparr>formValues := (formValues st)\<lparr>currency := v\<rparr>\<rparr>"

text \<open>
  The body of the \<^verbatim>\<open>useEffect\<close> that depends on the watched country:
  \<^verbatim>\<open>
    const isOpecCountry = OPEC_COUNTRIES.includes(selectedCountry)
    setIsOpec(isOpecCountry)
    if (isOpecCountry) { setValue('currency', 'USD') }
  \<close>
\<close>

definition countryEffect :: "FormState \<Rightarrow> FormState" where
  "countryEffect st =
     (let isOpecCountry = array_includes OPEC_COUNTRIES (country (formValues st));
          st1 = st\<lparr>isOpec := isOpecCountry\<rparr>
      in if isOpecCountry then setValue_currency ''USD'' st1 else st1)"

text \<open>
  A change of the country select: the registered field takes the new value, the component
  renders again and the effect runs, since the watched value has changed.
\<close>

definition changeCountry :: "string \<Rightarrow> FormState \<Rightarrow> FormState" where
  "changeCountry c st = countryEffect (st\<lparr>formValues := (formValues st)\<lparr>country := c\<rparr>\<rparr>)"

subsection \<open>Submission\<close>

text \<open>\<^verbatim>\<open>Math.round\<close>: the nearest integer, a tie going up.\<close>

definition Math_round :: "real \<Rightarrow> int" where
  "Math_round x = \<lfloor>x + 1 / 2\<rfloor>"

text \<open>
  The body of the request. \<open>validityPeriod\<close> is \<open>None\<close> only for \<^verbatim>\<open>NaN\<close>, when a date
  is empty; \<^verbatim>\<open>handleSubmit\<close> calls \<^verbatim>\<open>onSubmit\<close> with validated values only.
\<close>

record ApiData =
  fullName :: string
  countryCode :: string
  api_projectCode :: string
  api_description :: string
  api_amount :: "real option"
  api_currency :: string
  date :: "DateString option"
  validityPeriod :: "int option"

definition apiData :: "FinancingFormValues \<Rightarrow> ApiData" where
  "apiData data =
     (let validity_period =
            (case (startDate data, endDate data) of
               (Some s, Some e) \<Rightarrow> Some (calculateValidityPeriod s e)
             | _ \<Rightarrow> None)
      in \<lparr>fullName = name data,
          countryCode = country data,
          api_projectCode = projectCode data,
          api_description = description data,
          api_amount = amount data,
          api_currency = currency data,
          date = startDate data,
          validityPeriod = map_option Math_round validity_period\<rparr>)"

text \<open>
  What \<^verbatim>\<open>await axios.post(...)\<close> does: it resolves, or it throws an axios error with a
  response (status and the \<^verbatim>\<open>message\<close> of the response data, if any), an axios error
  with a request but no response, an axios error with neither (its own message), another
  \<^verbatim>\<open>Error\<close>, or a value that is no \<^verbatim>\<open>Error\<close>.
\<close>

datatype post_result =
    Resolved
  | AxiosResponse nat "string option"
  | AxiosNoResponse
  | AxiosSetup string
  | OtherError string
  | NotAnError

datatype toast = ToastSuccess string | ToastError string

text \<open>The message chosen in the \<^verbatim>\<open>catch\<close> block; \<^verbatim>\<open>x || y\<close> is \<open>y\<close> for an empty \<open>x\<close>.\<close>

definition errorMessage :: "post_result \<Rightarrow> string" where
  "errorMessage r =
     (case r of
        AxiosResponse status data_message \<Rightarrow>
          (if status = 400
             then ''Invalid request data. Please check your information and try again.''
           else if status = 401
             then ''Authentication required. Please log in and try again.''
           else if status = 403
             then ''Access denied. You do not have permission to submit this request.''
           else if status = 409
             then ''A request with this project code already exists. Please use a different project code.''
           else if status = 422
             then ''Validation error. Please check your form data and try again.''
           else if status = 500
             then ''Server error. Please try again later.''
           else (case data_message of
                   Some m \<Rightarrow>
                     if m \<noteq> [] then m
                     else ''Server error ('' @ string_of_nat status @ ''). Please try again.''
                 | None \<Rightarrow> ''Server error ('' @ string_of_nat status @ ''). Please try again.''))
      | AxiosNoResponse \<Rightarrow>
          ''Network error. Please check your internet connection and try again.''
      | AxiosSetup m \<Rightarrow>
          (if m \<noteq> [] then m else ''An unexpected error occurred. Please try again.'')
      | OtherError m \<Rightarrow> m
      | _ \<Rightarrow> ''Failed to submit request. Please try again.'')"

text \<open>\<^verbatim>\<open>reset()\<close> of react-hook-form, the form having no default values.\<close>

definition emptyValues :: FinancingFormValues where
  "emptyValues =
     \<lparr>name = [], country = [], projectCode = [], description = [], amount = None,
      currency = [], startDate = None, endDate = None\<rparr>"

definition reset :: "FormState \<Rightarrow> FormState" where
  "reset st = st\<lparr>formValues := emptyValues\<rparr>"

text \<open>
  \<^verbatim>\<open>onSubmit\<close>, given how the request ends: the state after the \<^verbatim>\<open>finally\<close> block,
  the body that was posted and the toast that was shown.
\<close>

definition onSubmit :: "FormState \<Rightarrow> post_result \<Rightarrow> FormState \<times> ApiData \<times> toast" where
  "onSubmit st r =
     (let st1 = st\<lparr>isSubmitting := True\<rparr>;
          body = apiData (formValues st1)
      in case r of
           Resolved \<Rightarrow>
             (((reset st1)\<lparr>isOpec := False\<rparr>)\<lparr>isSubmitting := False\<rparr>, body,
              ToastSuccess ''Financing request submitted successfully!'')
         | _ \<Rightarrow> (st1\<lparr>isSubmitting := False\<rparr>, body, ToastError (errorMessage r)))"

subsection \<open>Dates in a zone whose offset changes\<close>

text \<open>
  A zone gives the offset of local time from UTC in milliseconds, at a UTC time value and
  at a local time value (for a local time that is skipped or repeated, the offset
  ECMAScript picks). A \<^verbatim>\<open>Date\<close> holds a UTC time value: its getters read the fields
  of \<open>LocalTime\<close>, its constructor and setters build a local time value and take \<open>UTC\<close>
  of it. The dayjs operations are as above, on these.
\<close>

record TimeZone =
  offsetAtUTC :: "int \<Rightarrow> int"
  offsetAtLocal :: "int \<Rightarrow> int"

definition LocalTime :: "TimeZone \<Rightarrow> int \<Rightarrow> int" where
  "LocalTime z t = t + offsetAtUTC z t"

definition UTC :: "TimeZone \<Rightarrow> int \<Rightarrow> int" where
  "UTC z t = t - offsetAtLocal z t"

definition fixedZone :: "int \<Rightarrow> TimeZone" where
  "fixedZone c = \<lparr>offsetAtUTC = (\<lambda>t. c), offsetAtLocal = (\<lambda>t. c)\<rparr>"

definition new_Date_in :: "TimeZone \<Rightarrow> int \<Rightarrow> int \<Rightarrow> int \<Rightarrow> int" where
  "new_Date_in z y m dt = UTC z (new_Date y m dt)"

definition setDate_in :: "TimeZone \<Rightarrow> int \<Rightarrow> int \<Rightarrow> int" where
  "setDate_in z t dt = UTC z (setDate (LocalTime z t) dt)"

definition setMonth_in :: "TimeZone \<Rightarrow> int \<Rightarrow> int \<Rightarrow> int" where
  "setMonth_in z t m = UTC z (setMonth (LocalTime z t) m)"

definition setHours_in :: "TimeZone \<Rightarrow> int \<Rightarrow> int \<Rightarrow> int \<Rightarrow> int \<Rightarrow> int \<Rightarrow> int" where
  "setHours_in z t h m s ms = UTC z (setHours (LocalTime z t) h m s ms)"

definition dayjs_in :: "TimeZone \<Rightarrow> DateString \<Rightarrow> int" where
  "dayjs_in z v = new_Date_in z (ds_year v) (ds_month v - 1) (ds_day v)"

definition endOf_day_in :: "TimeZone \<Rightarrow> int \<Rightarrow> int" where
  "endOf_day_in z x = setHours_in z x 23 59 59 999"

definition daysInMonth_in :: "TimeZone \<Rightarrow> int \<Rightarrow> int" where
  "daysInMonth_in z x =
     DateFromTime (LocalTime z
       (endOf_day_in z
          (new_Date_in z (YearFromTime (LocalTime z x)) (MonthFromTime (LocalTime z x) + 1) 0)))"

definition set_month_in :: "TimeZone \<Rightarrow> int \<Rightarrow> int \<Rightarrow> int" where
  "set_month_in z x arg =
     (let date1 = setDate_in z x 1;
          date2 = setMonth_in z date1 arg
      in setDate_in z date2 (min (DateFromTime (LocalTime z x)) (daysInMonth_in z date2)))"

definition add_month_in :: "TimeZone \<Rightarrow> int \<Rightarrow> int \<Rightarrow> int" where
  "add_month_in z x n = set_month_in z x (MonthFromTime (LocalTime z x) + n)"

function monthDiff_in :: "TimeZone \<Rightarrow> int \<Rightarrow> int \<Rightarrow> real" where
  "monthDiff_in z a b =
     (if DateFromTime (LocalTime z a) < DateFromTime (LocalTime z b) then - monthDiff_in z b a
      else
        let wholeMonthDiff =
              (YearFromTime (LocalTime z b) - YearFromTime (LocalTime z a)) * 12
                + (MonthFromTime (LocalTime z b) - MonthFromTime (LocalTime z a));
            anchor = add_month_in z a wholeMonthDiff;
            c = (b - anchor < 0);
            anchor2 = add_month_in z a (wholeMonthDiff + (if c then - 1 else 1))
        in - (of_int wholeMonthDiff
              + of_int (b - anchor)
                / of_int (if c then anchor - anchor2 else anchor2 - anchor)))"
  by pat_completeness auto
termination
  by (relation "measure (\<lambda>(z, a, b).
        if DateFromTime (LocalTime z a) < DateFromTime (LocalTime z b) then 1 else 0)") auto

declare monthDiff_in.simps [simp del]

text \<open>\<^verbatim>\<open>calculateValidityPeriod\<close> in a zone.\<close>

definition calculateValidityPeriod_in :: "TimeZone \<Rightarrow> DateString \<Rightarrow> DateString \<Rightarrow> real" where
  "calculateValidityPeriod_in z start_date end_date =
     (let start = dayjs_in z start_date; end = dayjs_in z end_date
      in monthDiff_in z end start / 12)"

subsection \<open>Earlier revisions\<close>

text \<open>
  The first form component computed the minimum start date without dayjs:
  \<^verbatim>\<open>new Date(Date.now() + 1296000000).toISOString().split('T')[0]\<close>; the argument is
  \<^verbatim>\<open>Date.now()\<close>, a UTC time value.
\<close>

definition minStartDate_legacy :: "int \<Rightarrow> string" where
  "minStartDate_legacy utc_now = split_T_0 (toISOString (utc_now + 1296000000))"

text \<open>
  The earlier schema had no test on the start date and measured the validity period from a
  fixed date (\<^verbatim>\<open>dayjs('2025-07-01') // Hardcoded start date\<close>).
\<close>

definition startDate_errors_legacy :: "DateString option \<Rightarrow> yup_error list" where
  "startDate_errors_legacy v = date_required ''Start date is required'' v"

definition validity_period_test_legacy :: "DateString option \<Rightarrow> test_result" where
  "validity_period_test_legacy value =
     (case value of
        None \<Rightarrow> Invalid
      | Some v \<Rightarrow>
          let start = dayjs \<lparr>ds_year = 2025, ds_month = 7, ds_day = 1\<rparr>;
              end = dayjs v
          in if isBefore end start \<or> isSame end start
             then CreateError ''End date must be after start date''
             else
               let validityPeriod = diff_year end start
               in if validityPeriod < 1
                  then CreateError ''Validity period must be at least 1 year''
                  else if validityPeriod > 3
                  then CreateError ''Validity period cannot exceed 3 years''
                  else Valid)"

subsection \<open>The wording of the specification, for comparison\<close>

text \<open>
  A project code as the specification words it: exactly four uppercase ASCII letters, a
  hyphen, then four digits each from 1 to 9.
\<close>

definition uppercase_letter :: "char \<Rightarrow> bool" where
  "uppercase_letter c \<longleftrightarrow> c \<in> set ''ABCDEFGHIJKLMNOPQRSTUVWXYZ''"

definition digit_1_to_9 :: "char \<Rightarrow> bool" where
  "digit_1_to_9 c \<longleftrightarrow> c \<in> set ''123456789''"

definition spec_projectCode :: "string \<Rightarrow> bool" where
  "spec_projectCode s \<longleftrightarrow>
     length s = 9
     \<and> list_all uppercase_letter (take 4 s)
     \<and> s ! 4 = CHR ''-''
     \<and> list_all digit_1_to_9 (drop 5 s)"

text \<open>
  The year count as the specification words it: the elapsed time divided by an average
  year of 365.25 days.
\<close>

definition spec_elapsedYears :: "DateString \<Rightarrow> DateString \<Rightarrow> real" where
  "spec_elapsedYears s e = of_int (dayjs e - dayjs s) / (365.25 * of_int msPerDay)"

text \<open>
  The year count in calendar terms. Of the two dates, \<open>hi\<close> is the one with the larger day
  of the month. The anchor is the day of \<open>hi\<close> in the month of \<open>lo\<close>, cut down to the
  length of that month; \<open>before\<close> is the same one month earlier. The months from \<open>lo\<close>
  to \<open>hi\<close> are the difference of the month numbers plus the days from \<open>lo\<close> to the anchor
  as a fraction of the days from \<open>before\<close> to the anchor. \<open>clamped_day y m d\<close> is the day
  number of day \<open>d\<close> of month \<open>m\<close> (0 is January; a month before 0 is in the year before)
  of year \<open>y\<close>, cut down in this way.
\<close>

definition clamped_day :: "int \<Rightarrow> int \<Rightarrow> int \<Rightarrow> int" where
  "clamped_day y m d =
     (let ym = y + m div 12; mn = m mod 12 in MakeDay ym mn (min d (DaysInMonth ym mn)))"

definition calendar_months :: "DateString \<Rightarrow> DateString \<Rightarrow> real" where
  "calendar_months hi lo =
     (let w = (ds_year hi - ds_year lo) * 12 + (ds_month hi - ds_month lo);
          anchor = clamped_day (ds_year lo) (ds_month lo - 1) (ds_day hi);
          before = clamped_day (ds_year lo) (ds_month lo - 2) (ds_day hi);
          lo_day = MakeDay (ds_year lo) (ds_month lo - 1) (ds_day lo)
      in if lo_day < anchor
         then of_int w + of_int (anchor - lo_day) / of_int (anchor - before)
         else of_int w)"

definition calendar_years :: "DateString \<Rightarrow> DateString \<Rightarrow> real" where
  "calendar_years s e =
     (if ds_day e < ds_day s then - calendar_months s e else calendar_months e s) / 12"

text \<open>Whitespace, for the name rule as the specification words it.\<close>

definition whitespace_only :: "string \<Rightarrow> bool" where
  "whitespace_only s \<longleftrightarrow> list_all (\<lambda>c. c \<in> set [CHR '' '', CHR 0x09, CHR 0x0A, CHR 0x0D]) s"

subsection \<open>Example data\<close>

definition mkDate :: "int \<Rightarrow> int \<Rightarrow> int \<Rightarrow> DateString" where
  "mkDate y m d = \<lparr>ds_year = y, ds_month = m, ds_day = d\<rparr>"

text \<open>A moment of validation: 28 February 2026, 13:45 local time.\<close>

definition exampleNow :: Dayjs where
  "exampleNow = MakeDate (MakeDay 2026 1 28) (MakeTime 13 45 0 0)"

definition exampleValues :: FinancingFormValues where
  "exampleValues =
     \<lparr>name = ''Jane Doe'', country = ''US'', projectCode = ''ABCD-1234'',
      description = ''test'', amount = Some 1000, currency = ''EUR'',
      startDate = Some \<lparr>ds_year = 2026, ds_month = 3, ds_day = 15\<rparr>,
      endDate = Some \<lparr>ds_year = 2028, ds_month = 3, ds_day = 15\<rparr>\<rparr>"

definition exampleState :: FormState where
  "exampleState = \<lparr>formValues = exampleValues, isOpec = False, isSubmitting = False\<rparr>"



text \<open>
  A zone that goes from four to three hours behind UTC at local midnight of 2 September
  2029, as America/Santiago does; local times from 00:00 to 01:00 of that day are skipped.
\<close>

definition exampleDstZone :: TimeZone where
  "exampleDstZone =
     \<lparr>offsetAtUTC = (\<lambda>t. if t < MakeDate (MakeDay 2029 8 2) (MakeTime 4 0 0 0)
                         then - 14400000 else - 10800000),
      offsetAtLocal = (\<lambda>t. if t < MakeDate (MakeDay 2029 8 2) (MakeTime 1 0 0 0)
                           then - 14400000 else - 10800000)\<rparr>"

section \<open>Calendar arithmetic\<close>

subsection \<open>Years\<close>

lemma div_bounds:
  assumes "(c::int) > 0"
  shows "c * (a div c) \<le> a" "a < c * (a div c) + c"
proof -
  have split: "c * (a div c) + a mod c = a" by (rule mult_div_mod_eq)
  have "0 \<le> a mod c" "a mod c < c" using assms by simp_all
  with split show "c * (a div c) \<le> a" "a < c * (a div c) + c" by linarith+
qed

lemma DayFromYear_bounds:
  "146097 * (y - 1970) - 506 \<le> 400 * DayFromYear y \<and>
   400 * DayFromYear y \<le> 146097 * (y - 1970) + 589"
proof -
  define a where "a = (y - 1969) div 4"
  define b where "b = (y - 1901) div 100"
  define c where "c = (y - 1601) div 400"
  have A: "4 * a \<le> y - 1969" "y - 1969 < 4 * a + 4"
    unfolding a_def using div_bounds [of 4 "y - 1969"] by simp_all
  have B: "100 * b \<le> y - 1901" "y - 1901 < 100 * b + 100"
    unfolding b_def using div_bounds [of 100 "y - 1901"] by simp_all
  have C: "400 * c \<le> y - 1601" "y - 1601 < 400 * c + 400"
    unfolding c_def using div_bounds [of 400 "y - 1601"] by simp_all
  have D: "400 * DayFromYear y = 146000 * (y - 1970) + 400 * a - 400 * b + 400 * c"
    by (simp add: DayFromYear_def a_def b_def c_def)
  have lower: "146097 * (y - 1970) - 506 \<le> 400 * DayFromYear y"
    unfolding D using A B C by (simp add: algebra_simps)
  have upper: "400 * DayFromYear y \<le> 146097 * (y - 1970) + 589"
    unfolding D using A B C by (simp add: algebra_simps)
  from lower upper show ?thesis by blast
qed

lemma div_step:
  assumes "(c::int) > 0"
  shows "(a + 1) div c = (if (a + 1) mod c = 0 then a div c + 1 else a div c)"
proof -
  have 1: "c * (a div c) \<le> a" "a < c * (a div c) + c"
    using div_bounds [OF assms] by blast+
  have 2: "c * ((a + 1) div c) \<le> a + 1" "a + 1 < c * ((a + 1) div c) + c"
    using div_bounds [OF assms] by blast+
  have 3: "(a + 1) mod c = a + 1 - c * ((a + 1) div c)"
    by (simp add: minus_mult_div_eq_mod)
  show ?thesis
  proof (cases "(a + 1) mod c = 0")
    case True
    then have k: "a + 1 = c * ((a + 1) div c)" using 3 by simp
    have "c * (a div c) < c * ((a + 1) div c)" using 1 k by linarith
    then have lo: "a div c < (a + 1) div c" using assms by (simp add: mult_less_cancel_left)
    have "c * ((a + 1) div c) \<le> c * (a div c + 1)" using 1 k by (simp add: algebra_simps)
    then have "(a + 1) div c \<le> a div c + 1" using assms by (simp add: mult_le_cancel_left)
    with lo True show ?thesis by simp
  next
    case False
    then have "c * ((a + 1) div c) < a + 1" using 2 3 by linarith
    then have "c * ((a + 1) div c) < c * (a div c + 1)" using 1 by (simp add: algebra_simps)
    then have hi: "(a + 1) div c < a div c + 1" using assms by (simp add: mult_less_cancel_left)
    have "c * (a div c) < c * ((a + 1) div c + 1)" using 1 2 by (simp add: algebra_simps)
    then have "a div c < (a + 1) div c + 1" using assms by (simp add: mult_less_cancel_left)
    with hi False show ?thesis by simp
  qed
qed

lemma DayFromYear_step: "DayFromYear (y + 1) = DayFromYear y + DaysInYear y"
proof -
  have a: "(y + 1 - 1969) div 4 = (if y mod 4 = 0 then (y - 1969) div 4 + 1 else (y - 1969) div 4)"
  proof -
    have "(y - 1969 + 1) mod 4 = 0 \<longleftrightarrow> y mod 4 = 0"
      using mod_mult_self2 [of y 4 "- 492"] by simp
    with div_step [of 4 "y - 1969"] show ?thesis by (simp add: algebra_simps)
  qed
  have b: "(y + 1 - 1901) div 100 = (if y mod 100 = 0 then (y - 1901) div 100 + 1 else (y - 1901) div 100)"
  proof -
    have "(y - 1901 + 1) mod 100 = 0 \<longleftrightarrow> y mod 100 = 0"
      using mod_mult_self2 [of y 100 "- 19"] by simp
    with div_step [of 100 "y - 1901"] show ?thesis by (simp add: algebra_simps)
  qed
  have c: "(y + 1 - 1601) div 400 = (if y mod 400 = 0 then (y - 1601) div 400 + 1 else (y - 1601) div 400)"
  proof -
    have "(y - 1601 + 1) mod 400 = 0 \<longleftrightarrow> y mod 400 = 0"
      using mod_mult_self2 [of y 400 "- 4"] by simp
    with div_step [of 400 "y - 1601"] show ?thesis by (simp add: algebra_simps)
  qed
  have d1: "y mod 100 = 0 \<Longrightarrow> y mod 4 = 0"
    using dvd_trans [of 4 100 y] by (simp add: mod_eq_0_iff_dvd)
  have d2: "y mod 400 = 0 \<Longrightarrow> y mod 100 = 0"
    using dvd_trans [of 100 400 y] by (simp add: mod_eq_0_iff_dvd)
  show ?thesis
    unfolding DayFromYear_def DaysInYear_def a b c
    using d1 d2 by (auto simp: algebra_simps)
qed

lemma DaysInYear_range: "DaysInYear y = 365 \<or> DaysInYear y = 366"
  by (simp add: DaysInYear_def)

lemma DayFromYear_less: "y < y' \<Longrightarrow> DayFromYear y < DayFromYear y'"
proof (induction "nat (y' - y)" arbitrary: y')
  case 0
  then show ?case by simp
next
  case (Suc k)
  from Suc.hyps(2) Suc.prems have k: "k = nat (y' - 1 - y)" by linarith
  have step: "DayFromYear y' = DayFromYear (y' - 1) + DaysInYear (y' - 1)"
    using DayFromYear_step [of "y' - 1"] by simp
  show ?case
  proof (cases "y < y' - 1")
    case True
    from Suc.hyps(1) [OF k True] step DaysInYear_range [of "y' - 1"] show ?thesis by linarith
  next
    case False
    with Suc.prems have "y = y' - 1" by linarith
    with step DaysInYear_range [of "y' - 1"] show ?thesis by auto
  qed
qed

lemma DayFromYear_le: "y \<le> y' \<Longrightarrow> DayFromYear y \<le> DayFromYear y'"
  using DayFromYear_less [of y y'] by (cases "y = y'") auto

lemma YearFromDay_bounds:
  "DayFromYear (YearFromDay n) \<le> n" "n < DayFromYear (YearFromDay n + 1)"
proof -
  define q where "q = (400 * n) div 146097"
  have q1: "146097 * q \<le> 400 * n" and q2: "400 * n < 146097 * q + 146097"
    unfolding q_def using div_bounds [of 146097 "400 * n"] by simp_all
  have a: "400 * DayFromYear (1970 + q - 1) \<le> 146097 * q - 146097 + 589"
    using DayFromYear_bounds [of "1970 + q - 1"] by (simp add: algebra_simps)
  have b: "146097 * q + 146097 * 2 - 506 \<le> 400 * DayFromYear (1970 + q + 1 + 1)"
    using DayFromYear_bounds [of "1970 + q + 1 + 1"] by (simp add: algebra_simps)
  from a q1 have lo: "DayFromYear (1970 + q - 1) \<le> n" by linarith
  from b q2 have hi: "n < DayFromYear (1970 + q + 1 + 1)" by linarith
  show "DayFromYear (YearFromDay n) \<le> n"
    using lo unfolding YearFromDay_def q_def [symmetric] Let_def by auto
  show "n < DayFromYear (YearFromDay n + 1)"
    using hi unfolding YearFromDay_def q_def [symmetric] Let_def by auto
qed

lemma YearFromDay_unique:
  assumes "DayFromYear y \<le> n" "n < DayFromYear (y + 1)"
  shows "YearFromDay n = y"
proof (rule ccontr)
  assume ne: "YearFromDay n \<noteq> y"
  show False
  proof (cases "YearFromDay n < y")
    case True
    then have "DayFromYear (YearFromDay n + 1) \<le> DayFromYear y"
      by (intro DayFromYear_le) simp
    with YearFromDay_bounds(2) [of n] assms(1) show False by linarith
  next
    case False
    with ne have "y + 1 \<le> YearFromDay n" by linarith
    then have "DayFromYear (y + 1) \<le> DayFromYear (YearFromDay n)"
      by (rule DayFromYear_le)
    with YearFromDay_bounds(1) [of n] assms(2) show False by linarith
  qed
qed

subsection \<open>Months and dates\<close>

lemma month_cases:
  "(0::int) \<le> m \<Longrightarrow> m \<le> 11 \<Longrightarrow>
   m = 0 \<or> m = 1 \<or> m = 2 \<or> m = 3 \<or> m = 4 \<or> m = 5 \<or> m = 6
      \<or> m = 7 \<or> m = 8 \<or> m = 9 \<or> m = 10 \<or> m = 11"
proof -
  assume "0 \<le> m" "m \<le> 11"
  then have "m \<in> set [0..11]" by simp
  then show ?thesis by (simp add: upto.simps)
qed

lemma DayFromMonth_simps:
  "DayFromMonth 0 l = 0" "DayFromMonth 1 l = 31" "DayFromMonth 2 l = 59 + l"
  "DayFromMonth 3 l = 90 + l" "DayFromMonth 4 l = 120 + l" "DayFromMonth 5 l = 151 + l"
  "DayFromMonth 6 l = 181 + l" "DayFromMonth 7 l = 212 + l" "DayFromMonth 8 l = 243 + l"
  "DayFromMonth 9 l = 273 + l" "DayFromMonth 10 l = 304 + l" "DayFromMonth 11 l = 334 + l"
  by (simp_all add: DayFromMonth_def)

lemma month_length_simps:
  "month_length 0 l = 31" "month_length 1 l = 28 + l" "month_length 2 l = 31" "month_length 3 l = 30" "month_length 4 l = 31"
  "month_length 5 l = 30" "month_length 6 l = 31" "month_length 7 l = 31" "month_length 8 l = 30" "month_length 9 l = 31"
  "month_length 10 l = 30" "month_length 11 l = 31"
  by (simp_all add: month_length_def)

lemma month_chain_range:
  "0 \<le> MonthFromDayWithinYear d l" "MonthFromDayWithinYear d l \<le> 11"
  by (simp_all add: MonthFromDayWithinYear_def)

lemma month_chain_sound:
  assumes "0 \<le> d" "d < 365 + l"
  shows "DayFromMonth (MonthFromDayWithinYear d l) l \<le> d"
    and "d < DayFromMonth (MonthFromDayWithinYear d l) l + month_length (MonthFromDayWithinYear d l) l"
  using assms unfolding MonthFromDayWithinYear_def
  by (simp_all add: DayFromMonth_simps month_length_simps)

lemma month_chain_complete:
  assumes "0 \<le> m" "m \<le> 11" "1 \<le> d" "d \<le> month_length m l" "l = 0 \<or> l = 1"
  shows "MonthFromDayWithinYear (DayFromMonth m l + d - 1) l = m"
  using month_cases [OF assms(1,2)] assms(3,4,5)
  by (elim disjE) (simp_all add: DayFromMonth_simps month_length_simps MonthFromDayWithinYear_def)

subsection \<open>From a time value to its fields and back\<close>

lemma msPerDay_pos: "0 < msPerDay" by (simp add: msPerDay_def)

lemma Day_MakeDate: "0 \<le> tod \<Longrightarrow> tod < msPerDay \<Longrightarrow> Day (MakeDate n tod) = n"
  unfolding Day_def MakeDate_def using msPerDay_pos
  by (simp add: div_pos_pos_trivial)

lemma TimeWithinDay_MakeDate:
  "0 \<le> tod \<Longrightarrow> tod < msPerDay \<Longrightarrow> TimeWithinDay (MakeDate n tod) = tod"
  unfolding TimeWithinDay_def MakeDate_def by simp

lemma TimeWithinDay_range: "0 \<le> TimeWithinDay t" "TimeWithinDay t < msPerDay"
  unfolding TimeWithinDay_def using msPerDay_pos by simp_all

lemma MakeDate_Day: "MakeDate (Day t) (TimeWithinDay t) = t"
  unfolding MakeDate_def Day_def TimeWithinDay_def by simp

lemma DayWithinYear_range:
  "0 \<le> DayWithinYear t" "DayWithinYear t < DaysInYear (YearFromTime t)"
  unfolding DayWithinYear_def YearFromTime_def
  using YearFromDay_bounds [of "Day t"] DayFromYear_step [of "YearFromDay (Day t)"]
  by simp_all

lemma InLeapYear_range: "InLeapYear t = 0 \<or> InLeapYear t = 1"
  by (simp add: InLeapYear_def)

lemma DaysInYear_leap: "DaysInYear y = 365 + (if DaysInYear y = 366 then 1 else 0)"
  using DaysInYear_range [of y] by auto

lemma DaysInMonth_month_length: "DaysInMonth y m = month_length m (if DaysInYear y = 366 then 1 else 0)"
  by (simp add: DaysInMonth_def month_length_def)

lemma MonthFromTime_range: "0 \<le> MonthFromTime t" "MonthFromTime t \<le> 11"
  unfolding MonthFromTime_def by (rule month_chain_range)+

lemma MakeDay_small_month:
  "0 \<le> m \<Longrightarrow> m \<le> 11 \<Longrightarrow>
   MakeDay y m d = DayFromYear y + DayFromMonth m (if DaysInYear y = 366 then 1 else 0) + d - 1"
  unfolding MakeDay_def Let_def by (simp add: div_pos_pos_trivial)

lemma MakeDay_of_fields:
  "MakeDay (YearFromTime t) (MonthFromTime t) (DateFromTime t + k) = Day t + k"
proof -
  have "MakeDay (YearFromTime t) (MonthFromTime t) (DateFromTime t + k)
      = DayFromYear (YearFromTime t) + DayFromMonth (MonthFromTime t) (InLeapYear t)
        + (DateFromTime t + k) - 1"
    using MakeDay_small_month [OF MonthFromTime_range] by (simp add: InLeapYear_def)
  also have "\<dots> = Day t + k"
    by (simp add: DateFromTime_def DayWithinYear_def)
  finally show ?thesis .
qed

lemma DayFromMonth_span:
  assumes "0 \<le> m" "m \<le> 11" "1 \<le> d" "d \<le> month_length m l" "l = 0 \<or> l = 1"
  shows "0 \<le> DayFromMonth m l + d - 1" "DayFromMonth m l + d - 1 < 365 + l"
  using month_cases [OF assms(1,2)] assms(3,4,5)
  by (elim disjE; simp add: DayFromMonth_simps month_length_simps; fail)+

lemma fields_of_MakeDay:
  assumes "0 \<le> m" "m \<le> 11" "1 \<le> d" "d \<le> DaysInMonth y m" "0 \<le> tod" "tod < msPerDay"
  shows "YearFromTime (MakeDate (MakeDay y m d) tod) = y"
    and "MonthFromTime (MakeDate (MakeDay y m d) tod) = m"
    and "DateFromTime (MakeDate (MakeDay y m d) tod) = d"
proof -
  define leap :: int where "leap = (if DaysInYear y = 366 then 1 else 0)"
  define t where "t = MakeDate (MakeDay y m d) tod"
  have lp01: "leap = 0 \<or> leap = 1" by (simp add: leap_def)
  have d_le: "d \<le> month_length m leap" using assms(4) by (simp add: DaysInMonth_month_length leap_def)
  have day: "Day t = DayFromYear y + (DayFromMonth m leap + d - 1)"
    unfolding t_def leap_def using Day_MakeDate [OF assms(5,6)] MakeDay_small_month [OF assms(1,2)]
    by simp
  have span: "0 \<le> DayFromMonth m leap + d - 1" "DayFromMonth m leap + d - 1 < DaysInYear y"
    using DayFromMonth_span [OF assms(1,2,3) d_le lp01] DaysInYear_leap [of y]
    by (simp_all add: leap_def)
  have yr: "YearFromTime t = y"
    unfolding YearFromTime_def
    using span day DayFromYear_step [of y] by (intro YearFromDay_unique) simp_all
  have lp: "InLeapYear t = leap" by (simp add: InLeapYear_def yr leap_def)
  have dwy: "DayWithinYear t = DayFromMonth m leap + d - 1"
    by (simp add: DayWithinYear_def yr day)
  have mo: "MonthFromTime t = m"
    unfolding MonthFromTime_def lp dwy
    by (rule month_chain_complete [OF assms(1,2,3) d_le lp01])
  show "YearFromTime (MakeDate (MakeDay y m d) tod) = y" using yr by (simp add: t_def)
  show "MonthFromTime (MakeDate (MakeDay y m d) tod) = m" using mo by (simp add: t_def)
  show "DateFromTime (MakeDate (MakeDay y m d) tod) = d"
    using mo lp dwy by (simp add: DateFromTime_def t_def [symmetric])
qed

lemma DateFromTime_range: "1 \<le> DateFromTime t"
  "DateFromTime t \<le> DaysInMonth (YearFromTime t) (MonthFromTime t)"
proof -
  have r: "0 \<le> DayWithinYear t" "DayWithinYear t < 365 + InLeapYear t"
    using DayWithinYear_range [of t] DaysInYear_range [of "YearFromTime t"]
    by (auto simp: InLeapYear_def)
  note s = month_chain_sound [OF r]
  show "1 \<le> DateFromTime t"
    using s(1) by (simp add: DateFromTime_def MonthFromTime_def)
  show "DateFromTime t \<le> DaysInMonth (YearFromTime t) (MonthFromTime t)"
    using s(2) by (simp add: DateFromTime_def MonthFromTime_def DaysInMonth_month_length InLeapYear_def)
qed

subsection \<open>Month arithmetic of dayjs\<close>

lemma MakeTime_zero: "MakeTime 0 0 0 0 = 0" by (simp add: MakeTime_def)
lemma MakeTime_end: "MakeTime 23 59 59 999 = 86399999" by (simp add: MakeTime_def)

lemma DaysInMonth_range: "1 \<le> DaysInMonth y m" "DaysInMonth y m \<le> 31"
  by (simp_all add: DaysInMonth_def)

lemma MakeDay_normalise: "MakeDay y m d = MakeDay (y + m div 12) (m mod 12) d"
  by (simp add: MakeDay_def Let_def div_pos_pos_trivial)

lemma MakeDay_day0_next:
  assumes "0 \<le> m" "m \<le> 11"
  shows "MakeDay y (m + 1) 0 = MakeDay y m (DaysInMonth y m)"
proof (cases "m = 11")
  case True
  have "MakeDay y 12 0 = DayFromYear (y + 1) - 1"
    by (simp add: MakeDay_def Let_def DayFromMonth_simps)
  also have "\<dots> = DayFromYear y + DaysInYear y - 1"
    by (simp add: DayFromYear_step)
  also have "\<dots> = MakeDay y 11 (DaysInMonth y 11)"
    using DaysInYear_leap [of y]
    by (simp add: MakeDay_small_month DayFromMonth_simps DaysInMonth_month_length month_length_simps)
  finally show ?thesis using True by simp
next
  case False
  with assms have m: "m = 0 \<or> m = 1 \<or> m = 2 \<or> m = 3 \<or> m = 4 \<or> m = 5 \<or> m = 6
      \<or> m = 7 \<or> m = 8 \<or> m = 9 \<or> m = 10"
    using month_cases [of m] by auto
  then show ?thesis
    by (elim disjE)
       (simp_all add: MakeDay_small_month DayFromMonth_simps DaysInMonth_month_length month_length_simps)
qed

lemma setDate_eq:
  "setDate t (DateFromTime t + k) = MakeDate (Day t + k) (TimeWithinDay t)"
  by (simp add: setDate_def MakeDay_of_fields)

lemma daysInMonth_eq:
  assumes "\<not> (0 \<le> YearFromTime x \<and> YearFromTime x \<le> 99)"
  shows "daysInMonth x = DaysInMonth (YearFromTime x) (MonthFromTime x)"
proof -
  define Y where "Y = YearFromTime x"
  define M where "M = MonthFromTime x"
  have M: "0 \<le> M" "M \<le> 11" unfolding M_def by (rule MonthFromTime_range)+
  have "new_Date Y (M + 1) 0 = MakeDate (MakeDay Y M (DaysInMonth Y M)) 0"
    using assms MakeDay_day0_next [OF M] by (auto simp: new_Date_def Y_def MakeTime_zero Let_def)
  then have "endOf_day (new_Date Y (M + 1) 0) = MakeDate (MakeDay Y M (DaysInMonth Y M)) 86399999"
    by (simp add: endOf_day_def setHours_def MakeTime_end Day_MakeDate msPerDay_def)
  then show ?thesis
    unfolding daysInMonth_def Y_def [symmetric] M_def [symmetric]
    using fields_of_MakeDay(3) [where y = Y and m = M and d = "DaysInMonth Y M"
        and tod = 86399999, OF M DaysInMonth_range(1) order_refl]
    by (simp add: msPerDay_def)
qed

lemma set_month_eq:
  assumes "\<not> (0 \<le> YearFromTime x + arg div 12 \<and> YearFromTime x + arg div 12 \<le> 99)"
  shows "set_month x arg =
           MakeDate (MakeDay (YearFromTime x + arg div 12) (arg mod 12)
                       (min (DateFromTime x)
                            (DaysInMonth (YearFromTime x + arg div 12) (arg mod 12))))
                    (TimeWithinDay x)"
proof -
  define Y where "Y = YearFromTime x"
  define ym where "ym = Y + arg div 12"
  define mn where "mn = arg mod 12"
  define tod where "tod = TimeWithinDay x"
  have mn: "0 \<le> mn" "mn \<le> 11" unfolding mn_def by simp_all
  have tod: "0 \<le> tod" "tod < msPerDay" unfolding tod_def by (rule TimeWithinDay_range)+
  define date1 where "date1 = setDate x 1"
  have date1: "date1 = MakeDate (MakeDay Y (MonthFromTime x) 1) tod"
    by (simp add: date1_def setDate_def Y_def tod_def)
  have one_le: "1 \<le> DaysInMonth y m" for y m by (rule DaysInMonth_range)
  have f1: "YearFromTime date1 = Y" "DateFromTime date1 = 1" "TimeWithinDay date1 = tod"
    unfolding date1
    using fields_of_MakeDay [where y = Y and m = "MonthFromTime x" and d = 1 and tod = tod,
        OF MonthFromTime_range order_refl one_le tod]
      TimeWithinDay_MakeDate [OF tod]
    by simp_all
  define date2 where "date2 = setMonth date1 arg"
  have date2: "date2 = MakeDate (MakeDay ym mn 1) tod"
    unfolding date2_def setMonth_def f1 ym_def mn_def by (rule arg_cong2 [where f = MakeDate])
      (simp_all add: MakeDay_normalise [of Y arg 1])
  have f2: "YearFromTime date2 = ym" "MonthFromTime date2 = mn" "TimeWithinDay date2 = tod"
    unfolding date2
    using fields_of_MakeDay [where y = ym and m = mn and d = 1 and tod = tod,
        OF mn order_refl one_le tod] TimeWithinDay_MakeDate [OF tod]
    by simp_all
  have dim: "daysInMonth date2 = DaysInMonth ym mn"
    using daysInMonth_eq [of date2] assms unfolding f2 ym_def Y_def by simp
  have "set_month x arg = setDate date2 (min (DateFromTime x) (daysInMonth date2))"
    by (simp add: set_month_def date1_def date2_def Let_def)
  also have "\<dots> = MakeDate (MakeDay ym mn (min (DateFromTime x) (DaysInMonth ym mn))) tod"
    by (simp add: setDate_def f2 dim)
  finally show ?thesis by (simp add: ym_def mn_def Y_def tod_def)
qed

lemma month_index:
  assumes "0 \<le> Mb" "Mb \<le> (11::int)"
  shows "Ya + (Ma + ((Yb - Ya) * 12 + (Mb - Ma))) div 12 = Yb"
    and "(Ma + ((Yb - Ya) * 12 + (Mb - Ma))) mod 12 = Mb"
proof -
  have e: "Ma + ((Yb - Ya) * 12 + (Mb - Ma)) = Mb + (Yb - Ya) * 12" by simp
  have d: "(Mb + (Yb - Ya) * 12) div 12 = (Yb - Ya) + Mb div 12"
    by (rule div_mult_self1) simp
  have m: "(Mb + (Yb - Ya) * 12) mod 12 = Mb mod 12"
    by (rule mod_mult_self1)
  have small: "Mb div 12 = 0" "Mb mod 12 = Mb"
    using assms by (simp_all add: div_pos_pos_trivial)
  show "Ya + (Ma + ((Yb - Ya) * 12 + (Mb - Ma))) div 12 = Yb"
    unfolding e d small by simp
  show "(Ma + ((Yb - Ya) * 12 + (Mb - Ma))) mod 12 = Mb"
    unfolding e m small by simp
qed

lemma monthDiff_same_date:
  assumes "DateFromTime a = DateFromTime b" "TimeWithinDay a = TimeWithinDay b"
    and "\<not> (0 \<le> YearFromTime b \<and> YearFromTime b \<le> 99)"
  shows "monthDiff a b =
           of_int ((YearFromTime a - YearFromTime b) * 12 + (MonthFromTime a - MonthFromTime b))"
proof -
  define w where "w = (YearFromTime b - YearFromTime a) * 12 + (MonthFromTime b - MonthFromTime a)"
  have idx: "YearFromTime a + (MonthFromTime a + w) div 12 = YearFromTime b"
    "(MonthFromTime a + w) mod 12 = MonthFromTime b"
    unfolding w_def by (rule month_index [OF MonthFromTime_range])+
  have "add_month a w = set_month a (MonthFromTime a + w)"
    by (simp add: add_month_def)
  also have "\<dots> =
      MakeDate (MakeDay (YearFromTime b) (MonthFromTime b)
                  (min (DateFromTime a) (DaysInMonth (YearFromTime b) (MonthFromTime b))))
               (TimeWithinDay a)"
    using set_month_eq [of a "MonthFromTime a + w"] assms(3) unfolding idx by blast
  also have "\<dots> = MakeDate (MakeDay (YearFromTime b) (MonthFromTime b) (DateFromTime b))
               (TimeWithinDay b)"
    using DateFromTime_range(2) [of b] by (simp add: assms(1,2) min_def)
  also have "\<dots> = b"
    using MakeDay_of_fields [of b 0] by (simp add: MakeDate_Day)
  finally have anchor: "add_month a w = b" .
  have "monthDiff a b =
      - (of_int w
         + of_int (b - add_month a w)
           / of_int (if b - add_month a w < 0
                     then add_month a w - add_month a (w + (if b - add_month a w < 0 then - 1 else 1))
                     else add_month a (w + (if b - add_month a w < 0 then - 1 else 1))
                          - add_month a w))"
    unfolding w_def by (subst monthDiff.simps) (simp only: assms(1) less_irrefl if_False Let_def)
  also have "\<dots> = - of_int w"
    unfolding anchor by simp
  finally show ?thesis by (simp add: w_def algebra_simps)
qed

section \<open>Regular expression of the project code\<close>

lemma nat_range_cases:
  "(lo::nat) \<le> n \<and> n \<le> hi \<longleftrightarrow> n \<in> set [lo..<Suc hi]"
  by auto

lemma uppercase_range:
  "atom_matches (CharRange CHR ''A'' CHR ''Z'') c \<longleftrightarrow> uppercase_letter c"
proof -
  have "atom_matches (CharRange CHR ''A'' CHR ''Z'') c \<longleftrightarrow> (of_char c :: nat) \<in> set [65..<Suc 90]"
    unfolding nat_range_cases [symmetric] by simp
  also have "\<dots> \<longleftrightarrow> (of_char c :: nat) \<in> of_char ` set ''ABCDEFGHIJKLMNOPQRSTUVWXYZ''"
    by (simp add: upt_rec)
  also have "\<dots> \<longleftrightarrow> uppercase_letter c"
    unfolding uppercase_letter_def by (rule inj_image_mem_iff) (simp add: inj_on_def)
  finally show ?thesis .
qed

lemma digit_range:
  "atom_matches (CharRange CHR ''1'' CHR ''9'') c \<longleftrightarrow> digit_1_to_9 c"
proof -
  have "atom_matches (CharRange CHR ''1'' CHR ''9'') c \<longleftrightarrow> (of_char c :: nat) \<in> set [49..<Suc 57]"
    unfolding nat_range_cases [symmetric] by simp
  also have "\<dots> \<longleftrightarrow> (of_char c :: nat) \<in> of_char ` set ''123456789''"
    by (simp add: upt_rec)
  also have "\<dots> \<longleftrightarrow> digit_1_to_9 c"
    unfolding digit_1_to_9_def by (rule inj_image_mem_iff) (simp add: inj_on_def)
  finally show ?thesis .
qed

lemma match_times_iff:
  "match_times a n s = Some r \<longleftrightarrow>
     n \<le> length s \<and> list_all (atom_matches a) (take n s) \<and> r = drop n s"
proof (induction n arbitrary: s)
  case 0
  show ?case by auto
next
  case (Suc n)
  show ?case
  proof (cases s)
    case Nil
    then show ?thesis by simp
  next
    case (Cons c cs)
    with Suc.IH [of cs] show ?thesis by auto
  qed
qed

lemma match_times_None:
  "match_times a n s = None \<longleftrightarrow> \<not> (n \<le> length s \<and> list_all (atom_matches a) (take n s))"
  using match_times_iff [of a n s] by (cases "match_times a n s") auto

lemma regex_test_Times:
  "regex_test (Times a n # items) s \<longleftrightarrow>
     n \<le> length s \<and> list_all (atom_matches a) (take n s) \<and> regex_test items (drop n s)"
proof (cases "match_times a n s")
  case None
  then show ?thesis using match_times_None [of a n s] by auto
next
  case (Some r)
  then show ?thesis using match_times_iff [of a n s r] by auto
qed

lemma uppercase_range_fun: "atom_matches (CharRange CHR ''A'' CHR ''Z'') = uppercase_letter"
  by (rule ext) (rule uppercase_range)

lemma digit_range_fun: "atom_matches (CharRange CHR ''1'' CHR ''9'') = digit_1_to_9"
  by (rule ext) (rule digit_range)

lemma regex_test_projectCode:
  "regex_test projectCode_regex s \<longleftrightarrow> spec_projectCode s"
proof -
  have "regex_test projectCode_regex s \<longleftrightarrow>
      4 \<le> length s \<and> list_all uppercase_letter (take 4 s)
      \<and> 1 \<le> length (drop 4 s) \<and> list_all (atom_matches (CharLit CHR ''-'')) (take 1 (drop 4 s))
      \<and> 4 \<le> length (drop 1 (drop 4 s)) \<and> list_all digit_1_to_9 (take 4 (drop 1 (drop 4 s)))
      \<and> drop 4 (drop 1 (drop 4 s)) = []"
    unfolding projectCode_regex_def regex_test_Times uppercase_range_fun digit_range_fun
    by simp
  also have "\<dots> \<longleftrightarrow> spec_projectCode s"
  proof (cases "length s = 9")
    case True
    then have "take 1 (drop 4 s) = [s ! 4]"
      by (simp add: take_Suc_conv_app_nth)
    with True show ?thesis by (auto simp: spec_projectCode_def)
  next
    case False
    then show ?thesis by (auto simp: spec_projectCode_def)
  qed
  finally show ?thesis .
qed


section \<open>Properties\<close>

subsection \<open>OPEC membership and the forced currency\<close>

lemma includes_set: "array_includes ys x \<longleftrightarrow> x \<in> set ys"
  by (induction ys) auto

text \<open>
  Claim C3. A country code is recognised as OPEC exactly when it is one of the thirteen
  codes DZ, AO, CG, GQ, GA, IR, IQ, KW, LY, NG, SA, AE, VE; and whatever the form state
  was, after the country changes to an OPEC code the currency value is "USD".
\<close>

theorem opec_membership_and_forced_usd:
  "(array_includes OPEC_COUNTRIES c \<longleftrightarrow>
      c \<in> {''DZ'', ''AO'', ''CG'', ''GQ'', ''GA'', ''IR'', ''IQ'', ''KW'', ''LY'', ''NG'',
           ''SA'', ''AE'', ''VE''})
   \<and> (array_includes OPEC_COUNTRIES c \<longrightarrow>
        currency (formValues (changeCountry c st)) = ''USD''
        \<and> isOpec (changeCountry c st))"
proof -
  have "array_includes OPEC_COUNTRIES c \<longleftrightarrow> c \<in> set OPEC_COUNTRIES"
    by (rule includes_set)
  then have member: "array_includes OPEC_COUNTRIES c \<longleftrightarrow>
      c \<in> {''DZ'', ''AO'', ''CG'', ''GQ'', ''GA'', ''IR'', ''IQ'', ''KW'', ''LY'', ''NG'',
           ''SA'', ''AE'', ''VE''}"
    unfolding OPEC_COUNTRIES_def by auto
  have forced: "array_includes OPEC_COUNTRIES c \<longrightarrow>
        currency (formValues (changeCountry c st)) = ''USD''
        \<and> isOpec (changeCountry c st)"
    by (simp add: changeCountry_def countryEffect_def setValue_currency_def Let_def)
  from member forced show ?thesis by blast
qed

theorem opec_membership_and_forced_usd_witness:
  "array_includes OPEC_COUNTRIES ''SA''
   \<and> currency (formValues exampleState) = ''EUR''
   \<and> currency (formValues (changeCountry ''SA'' exampleState)) = ''USD''"
  using opec_membership_and_forced_usd [of "''SA''" exampleState]
  by (simp add: exampleState_def exampleValues_def)

text \<open>
  Claim C8. When the country changes to a code outside the OPEC list, the controller
  leaves every form value other than the country itself as it was, the currency included
  (a "USD" forced earlier stays); only the flag that selects between the disabled
  display and the editable select changes, to "editable".
\<close>

theorem non_opec_keeps_currency:
  assumes "\<not> array_includes OPEC_COUNTRIES c"
  shows "changeCountry c st
           = st\<lparr>formValues := (formValues st)\<lparr>country := c\<rparr>, isOpec := False\<rparr>
         \<and> currency (formValues (changeCountry c st)) = currency (formValues st)"
  using assms by (simp add: changeCountry_def countryEffect_def Let_def)

theorem non_opec_keeps_currency_witness:
  "\<not> array_includes OPEC_COUNTRIES ''US''
   \<and> currency (formValues (changeCountry ''US'' (changeCountry ''SA'' exampleState))) = ''USD''
   \<and> \<not> isOpec (changeCountry ''US'' (changeCountry ''SA'' exampleState))"
proof -
  have out: "\<not> array_includes OPEC_COUNTRIES ''US''"
    by (simp add: OPEC_COUNTRIES_def)
  have forced: "currency (formValues (changeCountry ''SA'' exampleState)) = ''USD''"
    by (simp add: changeCountry_def countryEffect_def setValue_currency_def Let_def
        OPEC_COUNTRIES_def)
  from non_opec_keeps_currency [OF out, of "changeCountry ''SA'' exampleState"] forced out
  show ?thesis by simp
qed

subsection \<open>Project code\<close>

text \<open>
  Claim C4. The project code passes validation exactly when it consists of four uppercase
  ASCII letters, a hyphen and four digits from 1 to 9; every other string, the empty one
  included, is reported with the message of the format test.
\<close>

theorem projectCode_rule:
  "(projectCode_errors s = [] \<longleftrightarrow> spec_projectCode s)
   \<and> (\<not> spec_projectCode s \<longrightarrow>
        Message ''Invalid project code format (e.g., ABCD-1234)'' \<in> set (projectCode_errors s))"
proof -
  have nonempty: "spec_projectCode s \<Longrightarrow> length s \<noteq> 0"
    by (auto simp: spec_projectCode_def)
  show ?thesis
    using nonempty
    by (auto simp: projectCode_errors_def string_matches_def string_required_def
        regex_test_projectCode)
qed

theorem projectCode_rule_witness:
  "projectCode_errors ''ABCD-1234'' = []
   \<and> Message ''Invalid project code format (e.g., ABCD-1234)'' \<in> set (projectCode_errors ''ABcD-1234'')
   \<and> Message ''Invalid project code format (e.g., ABCD-1234)'' \<in> set (projectCode_errors ''ABCD-1204'')
   \<and> Message ''Invalid project code format (e.g., ABCD-1234)'' \<in> set (projectCode_errors ''ABC-12345'')
   \<and> Message ''Invalid project code format (e.g., ABCD-1234)'' \<in> set (projectCode_errors ''ABCD1234'')"
proof -
  have ok: "spec_projectCode ''ABCD-1234''" by code_simp
  have lower: "\<not> spec_projectCode ''ABcD-1234''" by code_simp
  have zero: "\<not> spec_projectCode ''ABCD-1204''" by code_simp
  have len: "\<not> spec_projectCode ''ABC-12345''" by code_simp
  have hyphen: "\<not> spec_projectCode ''ABCD1234''" by code_simp
  from ok lower zero len hyphen
    projectCode_rule [of "''ABCD-1234''"] projectCode_rule [of "''ABcD-1234''"]
    projectCode_rule [of "''ABCD-1204''"] projectCode_rule [of "''ABC-12345''"]
    projectCode_rule [of "''ABCD1234''"]
  show ?thesis by blast
qed

subsection \<open>Name\<close>

text \<open>
  Claim C9, as the specification has it, fails: a name of one space passes.
\<close>

theorem name_whitespace_counterexample:
  "whitespace_only '' '' \<and> name_errors '' '' = []"
  by (simp add: whitespace_only_def name_errors_def string_required_def)

text \<open>
  Claim C9, amended. The name validation fails, with the message "Name is required",
  exactly for the empty string; every other string passes, whitespace or not.
\<close>

theorem name_required_rule:
  "(name_errors s = [Message ''Name is required''] \<longleftrightarrow> s = [])
   \<and> (name_errors s = [] \<longleftrightarrow> s \<noteq> [])"
  by (simp add: name_errors_def string_required_def)

theorem name_required_rule_witness:
  "name_errors [] = [Message ''Name is required'']
   \<and> name_errors ''Jane Doe'' = [] \<and> name_errors [CHR 0x09, CHR '' ''] = []"
  using name_required_rule [of "[]"] name_required_rule [of "''Jane Doe''"]
    name_required_rule [of "[CHR 0x09, CHR '' '']"]
  by simp

subsection \<open>Outcome of a submission\<close>

lemma onSubmit_failure:
  "r \<noteq> Resolved \<Longrightarrow>
   onSubmit st r = (st\<lparr>isSubmitting := False\<rparr>, apiData (formValues st), ToastError (errorMessage r))"
  by (cases r) (simp_all add: onSubmit_def Let_def)

lemma onSubmit_success:
  "onSubmit st Resolved =
     (st\<lparr>formValues := emptyValues, isOpec := False, isSubmitting := False\<rparr>,
      apiData (formValues st), ToastSuccess ''Financing request submitted successfully!'')"
  by (simp add: onSubmit_def Let_def reset_def)

text \<open>
  Claim C7. When the request is answered with status 409, the error toast carries the
  message about an existing project code and the form values stay as they were; the
  form values are kept for every outcome other than success, and success resets them.
\<close>

theorem conflict_keeps_form:
  "onSubmit st (AxiosResponse 409 d) =
     (st\<lparr>isSubmitting := False\<rparr>, apiData (formValues st),
      ToastError ''A request with this project code already exists. Please use a different project code.'')
   \<and> (r \<noteq> Resolved \<longrightarrow> formValues (fst (onSubmit st r)) = formValues st
        \<and> isOpec (fst (onSubmit st r)) = isOpec st)
   \<and> formValues (fst (onSubmit st Resolved)) = emptyValues"
proof -
  have "errorMessage (AxiosResponse 409 d) =
      ''A request with this project code already exists. Please use a different project code.''"
    by (simp add: errorMessage_def)
  then show ?thesis
    using onSubmit_failure [of "AxiosResponse 409 d" st] onSubmit_failure [of r st]
    by (simp add: onSubmit_success)
qed

theorem conflict_keeps_form_witness:
  "formValues (fst (onSubmit exampleState (AxiosResponse 409 None))) = exampleValues
   \<and> snd (snd (onSubmit exampleState (AxiosResponse 409 None))) =
       ToastError ''A request with this project code already exists. Please use a different project code.''
   \<and> formValues (fst (onSubmit exampleState AxiosNoResponse)) = exampleValues
   \<and> formValues (fst (onSubmit exampleState Resolved)) = emptyValues"
  using conflict_keeps_form [of exampleState None AxiosNoResponse]
    conflict_keeps_form [of exampleState None "AxiosResponse 409 None"]
  by (simp add: exampleState_def)

subsection \<open>Start date\<close>

lemma Day_le_iff: "Day t \<le> k \<longleftrightarrow> t < (k + 1) * msPerDay"
proof -
  have b: "msPerDay * (t div msPerDay) \<le> t" "t < msPerDay * (t div msPerDay) + msPerDay"
    using div_bounds [OF msPerDay_pos] by blast+
  show ?thesis
  proof
    assume "Day t \<le> k"
    then have "msPerDay * (t div msPerDay) \<le> msPerDay * k"
      unfolding Day_def using msPerDay_pos by (simp add: mult_le_cancel_left)
    with b(2) show "t < (k + 1) * msPerDay" by (simp add: algebra_simps)
  next
    assume "t < (k + 1) * msPerDay"
    with b(1) have "msPerDay * (t div msPerDay) < msPerDay * (k + 1)" by (simp add: algebra_simps)
    then have "t div msPerDay < k + 1" using msPerDay_pos by (simp add: mult_less_cancel_left)
    then show "Day t \<le> k" by (simp add: Day_def)
  qed
qed

lemma Day_add_day: "Day (add_day x n) = Day x + n"
  unfolding add_day_def setDate_eq by (rule Day_MakeDate) (rule TimeWithinDay_range)+

lemma isSameOrAfter_day_iff: "isSameOrAfter_day this that \<longleftrightarrow> Day that \<le> Day this"
proof -
  have s: "startOf_day this = Day this * msPerDay"
    by (simp add: startOf_day_def setHours_def MakeDate_def MakeTime_def)
  have e: "endOf_day this = Day this * msPerDay + 86399999"
    by (simp add: endOf_day_def setHours_def MakeDate_def MakeTime_def)
  have "isSameOrAfter_day this that \<longleftrightarrow> that \<le> Day this * msPerDay + 86399999"
    unfolding isSameOrAfter_day_def isSame_day_def isAfter_day_def s e by auto
  also have "\<dots> \<longleftrightarrow> that < (Day this + 1) * msPerDay"
    by (auto simp: msPerDay_def algebra_simps)
  also have "\<dots> \<longleftrightarrow> Day that \<le> Day this"
    by (rule Day_le_iff [symmetric])
  finally show ?thesis .
qed

text \<open>
  Claim C2. With \<open>now\<close> the local time at which the rule is evaluated, a chosen start
  date passes exactly when its day is the day of \<open>now\<close> plus 15 or later: the 14th day
  after today fails and the 15th passes.
\<close>

theorem startDate_rule:
  "(startDate_errors now (Some v) = [] \<longleftrightarrow> Day now + 15 \<le> Day (dayjs v))
   \<and> (Day (dayjs v) = Day now + 14 \<longrightarrow> startDate_errors now (Some v) \<noteq> [])
   \<and> (Day (dayjs v) = Day now + 15 \<longrightarrow> startDate_errors now (Some v) = [])"
proof -
  have "startDate_errors now (Some v) = [] \<longleftrightarrow> Day now + 15 \<le> Day (dayjs v)"
    by (simp add: startDate_errors_def date_required_def test_errors_def min_start_date_test_def
        Let_def isSameOrAfter_day_iff Day_add_day MIN_DAYS_FROM_NOW_def)
  then show ?thesis by simp
qed

theorem startDate_rule_witness:
  "Day (dayjs (mkDate 2026 3 14)) = Day exampleNow + 14
   \<and> startDate_errors exampleNow (Some (mkDate 2026 3 14))
       = [Message ''Start date must be at least 15 days from today'']
   \<and> Day (dayjs (mkDate 2026 3 15)) = Day exampleNow + 15
   \<and> startDate_errors exampleNow (Some (mkDate 2026 3 15)) = []"
proof -
  have d14: "Day (dayjs (mkDate 2026 3 14)) = Day exampleNow + 14" by code_simp
  have d15: "Day (dayjs (mkDate 2026 3 15)) = Day exampleNow + 15" by code_simp
  have either: "startDate_errors exampleNow (Some (mkDate 2026 3 14)) = []
      \<or> startDate_errors exampleNow (Some (mkDate 2026 3 14))
           = [Message ''Start date must be at least 15 days from today'']"
    by (simp add: startDate_errors_def date_required_def test_errors_def min_start_date_test_def
        Let_def)
  from startDate_rule [of exampleNow "mkDate 2026 3 14"]
    startDate_rule [of exampleNow "mkDate 2026 3 15"] d14 d15 either
  show ?thesis by blast
qed

lemma startDate_empty: "startDate_errors now None \<noteq> []"
  by (simp add: startDate_errors_def date_required_def)

subsection \<open>End date\<close>

lemma validity_period_test_Valid_iff:
  "validity_period_test (Some s) (Some e) = Valid \<longleftrightarrow>
     dayjs s < dayjs e
     \<and> 1 \<le> calculateValidityPeriod s e \<and> calculateValidityPeriod s e \<le> 3"
  by (auto simp: validity_period_test_def Let_def isBefore_def isSame_def MIN_YEARS_def
      MAX_YEARS_def)

lemma endDate_errors_Valid_iff:
  "endDate_errors p (Some e) = [] \<longleftrightarrow> validity_period_test p (Some e) = Valid"
  by (cases "validity_period_test p (Some e)")
     (simp_all add: endDate_errors_def date_required_def test_errors_def)



lemma endDate_needs_both: "endDate_errors None v \<noteq> []" "endDate_errors s None \<noteq> []"
  by (cases v; simp add: endDate_errors_def date_required_def test_errors_def
      validity_period_test_def)
     (simp add: endDate_errors_def date_required_def)

subsection \<open>Year count\<close>

lemma dayjs_fields:
  assumes "isDate v" "\<not> (0 \<le> ds_year v \<and> ds_year v \<le> 99)"
  shows "YearFromTime (dayjs v) = ds_year v"
    and "MonthFromTime (dayjs v) = ds_month v - 1"
    and "DateFromTime (dayjs v) = ds_day v"
    and "TimeWithinDay (dayjs v) = 0"
proof -
  have eq: "dayjs v = MakeDate (MakeDay (ds_year v) (ds_month v - 1) (ds_day v)) 0"
    using assms(2) by (auto simp: dayjs_def new_Date_def Let_def MakeTime_zero)
  have m: "0 \<le> ds_month v - 1" "ds_month v - 1 \<le> 11"
    and d: "1 \<le> ds_day v" "ds_day v \<le> DaysInMonth (ds_year v) (ds_month v - 1)"
    using assms(1) by (simp_all add: isDate_def)
  have z: "(0::int) \<le> 0" "0 < msPerDay" by (simp_all add: msPerDay_def)
  note f = fields_of_MakeDay [OF m d z]
  show "YearFromTime (dayjs v) = ds_year v" unfolding eq by (rule f)
  show "MonthFromTime (dayjs v) = ds_month v - 1" unfolding eq by (rule f)
  show "DateFromTime (dayjs v) = ds_day v" unfolding eq by (rule f)
  show "TimeWithinDay (dayjs v) = 0" unfolding eq by (rule TimeWithinDay_MakeDate [OF z])
qed

lemma diff_year_same_day:
  assumes "isDate s" "isDate e"
    and "100 \<le> ds_year s" "100 \<le> ds_year e"
    and "ds_day s = ds_day e"
  shows "diff_year (dayjs e) (dayjs s) =
           of_int ((ds_year e - ds_year s) * 12 + (ds_month e - ds_month s)) / 12"
proof -
  have ys: "\<not> (0 \<le> ds_year s \<and> ds_year s \<le> 99)" using assms(3) by simp
  have ye: "\<not> (0 \<le> ds_year e \<and> ds_year e \<le> 99)" using assms(4) by simp
  note fs = dayjs_fields [OF assms(1) ys]
  note fe = dayjs_fields [OF assms(2) ye]
  have "monthDiff (dayjs e) (dayjs s) =
      of_int ((YearFromTime (dayjs e) - YearFromTime (dayjs s)) * 12
              + (MonthFromTime (dayjs e) - MonthFromTime (dayjs s)))"
    by (rule monthDiff_same_date) (simp_all add: fs fe assms(5) ys)
  then show ?thesis
    by (simp add: diff_year_def fs fe)
qed

text \<open>
  The example of the dayjs documentation for a fractional difference:
  \<^verbatim>\<open>dayjs('2019-01-25').diff('2018-06-05', 'month', true)\<close> is 7.645161290322581.
\<close>

lemma monthDiff_documented_example:
  "monthDiff (dayjs (mkDate 2019 1 25)) (dayjs (mkDate 2018 6 5)) = 7 + 20 / 31"
  by code_simp

text \<open>
  Claim C6, as the specification has it, fails: from 1 January 2026 to 1 January 2027 the
  code counts exactly one year, and 365 days are less than a year of 365.25 days.
\<close>

theorem elapsedYears_counterexample:
  "calculateValidityPeriod (mkDate 2026 1 1) (mkDate 2027 1 1) = 1
   \<and> spec_elapsedYears (mkDate 2026 1 1) (mkDate 2027 1 1) = 1460 / 1461
   \<and> calculateValidityPeriod (mkDate 2026 1 1) (mkDate 2027 1 1)
       \<noteq> spec_elapsedYears (mkDate 2026 1 1) (mkDate 2027 1 1)"
proof -
  have c: "calculateValidityPeriod (mkDate 2026 1 1) (mkDate 2027 1 1) = 1" by code_simp
  have s: "spec_elapsedYears (mkDate 2026 1 1) (mkDate 2027 1 1) = 1460 / 1461" by code_simp
  from c s show ?thesis by simp
qed

text \<open>
  No other fixed length of the year fits either: 365 days and 731 days count as one year
  and as two.
\<close>

lemma no_fixed_year_length:
  "\<not> (\<exists>L::real. L \<noteq> 0
        \<and> calculateValidityPeriod (mkDate 2026 1 1) (mkDate 2027 1 1)
            = of_int (dayjs (mkDate 2027 1 1) - dayjs (mkDate 2026 1 1)) / (L * of_int msPerDay)
        \<and> calculateValidityPeriod (mkDate 2027 1 1) (mkDate 2029 1 1)
            = of_int (dayjs (mkDate 2029 1 1) - dayjs (mkDate 2027 1 1)) / (L * of_int msPerDay))"
proof -
  have c1: "calculateValidityPeriod (mkDate 2026 1 1) (mkDate 2027 1 1) = 1" by code_simp
  have c2: "calculateValidityPeriod (mkDate 2027 1 1) (mkDate 2029 1 1) = 2" by code_simp
  have d1: "dayjs (mkDate 2027 1 1) - dayjs (mkDate 2026 1 1) = 365 * msPerDay" by code_simp
  have d2: "dayjs (mkDate 2029 1 1) - dayjs (mkDate 2027 1 1) = 731 * msPerDay" by code_simp
  have ms: "(of_int msPerDay :: real) \<noteq> 0" by (simp add: msPerDay_def)
  show ?thesis
  proof
    assume "\<exists>L::real. L \<noteq> 0
        \<and> calculateValidityPeriod (mkDate 2026 1 1) (mkDate 2027 1 1)
            = of_int (dayjs (mkDate 2027 1 1) - dayjs (mkDate 2026 1 1)) / (L * of_int msPerDay)
        \<and> calculateValidityPeriod (mkDate 2027 1 1) (mkDate 2029 1 1)
            = of_int (dayjs (mkDate 2029 1 1) - dayjs (mkDate 2027 1 1)) / (L * of_int msPerDay)"
    then obtain L :: real where L: "L \<noteq> 0"
      and e1: "1 = of_int (365 * msPerDay) / (L * of_int msPerDay)"
      and e2: "2 = of_int (731 * msPerDay) / (L * of_int msPerDay)"
      unfolding c1 c2 d1 d2 by blast
    from e1 L ms have "L = 365" by (simp add: field_simps)
    moreover from e2 L ms have "2 * L = 731" by (simp add: field_simps)
    ultimately show False by simp
  qed
qed

lemma calculateValidityPeriod_same_day:
  assumes "isDate s" "isDate e"
    and "100 \<le> ds_year s" "100 \<le> ds_year e"
    and "ds_day s = ds_day e"
  shows "calculateValidityPeriod s e =
           of_int ((ds_year e - ds_year s) * 12 + (ds_month e - ds_month s)) / 12"
  using diff_year_same_day [OF assms] by (simp add: calculateValidityPeriod_def Let_def)

subsection \<open>Year count by the calendar\<close>

lemma shifted_index:
  "(k + n * 12) div 12 = n + k div (12::int)" "(k + n * 12) mod 12 = k mod (12::int)"
  by simp_all

lemma MakeDay_date_shift: "MakeDay y m (d + k) = MakeDay y m d + k"
  by (simp add: MakeDay_def Let_def)

lemma MakeDate_diff: "MakeDate n t - MakeDate n' t = (n - n') * msPerDay"
  by (simp add: MakeDate_def algebra_simps)

lemma add_month_eq:
  assumes "\<not> (0 \<le> YearFromTime x + (MonthFromTime x + n) div 12
             \<and> YearFromTime x + (MonthFromTime x + n) div 12 \<le> 99)"
  shows "add_month x n =
           MakeDate (clamped_day (YearFromTime x) (MonthFromTime x + n) (DateFromTime x))
                    (TimeWithinDay x)"
  unfolding add_month_def clamped_day_def Let_def using set_month_eq [OF assms] .

lemma ratio_cancel: "k \<noteq> 0 \<Longrightarrow> of_int (p * k) / (of_int (q * k) :: real) = of_int p / of_int q"
  by simp

lemma monthDiff_calendar:
  assumes "isDate hi" "isDate lo" "101 \<le> ds_year hi" "101 \<le> ds_year lo"
    and "ds_day lo \<le> ds_day hi"
  shows "monthDiff (dayjs hi) (dayjs lo) = calendar_months hi lo"
proof -
  have yh: "\<not> (0 \<le> ds_year hi \<and> ds_year hi \<le> 99)" using assms(3) by simp
  have yl: "\<not> (0 \<le> ds_year lo \<and> ds_year lo \<le> 99)" using assms(4) by simp
  note fh = dayjs_fields [OF assms(1) yh]
  note fl = dayjs_fields [OF assms(2) yl]
  define a where "a = dayjs hi"
  define b where "b = dayjs lo"
  define wc where "wc = (ds_year lo - ds_year hi) * 12 + ((ds_month lo - 1) - (ds_month hi - 1))"
  define anchor where "anchor = clamped_day (ds_year lo) (ds_month lo - 1) (ds_day hi)"
  define before where "before = clamped_day (ds_year lo) (ds_month lo - 2) (ds_day hi)"
  define lo_day where "lo_day = MakeDay (ds_year lo) (ds_month lo - 1) (ds_day lo)"
  have ml: "0 \<le> ds_month lo - 1" "ds_month lo - 1 \<le> 11"
    using assms(2) by (simp_all add: isDate_def)
  have i0: "ds_month hi - 1 + wc = (ds_month lo - 1) + (ds_year lo - ds_year hi) * 12"
    "ds_month hi - 1 + (wc + - 1) = (ds_month lo - 2) + (ds_year lo - ds_year hi) * 12"
    by (simp_all add: wc_def)
  have small: "(ds_month lo - 1) div 12 = 0" using ml by (simp add: div_pos_pos_trivial)
  have prev: "- 1 \<le> (ds_month lo - 2) div 12"
  proof -
    have "(- 12) div 12 \<le> (ds_month lo - 2) div (12::int)"
      using ml by (intro zdiv_mono1) simp_all
    then show ?thesis by simp
  qed
  have smallm: "(ds_month lo - 1) mod 12 = ds_month lo - 1" using ml by simp
  have t1: "YearFromTime a + (MonthFromTime a + wc) div 12 = ds_year lo"
    unfolding a_def fh i0(1) shifted_index small by simp
  have t1m: "(MonthFromTime a + wc) mod 12 = ds_month lo - 1"
    unfolding a_def fh i0(1) shifted_index smallm by simp
  have t2: "YearFromTime a + (MonthFromTime a + (wc + - 1)) div 12
      = ds_year lo + (ds_month lo - 2) div 12"
    unfolding a_def fh i0(2) shifted_index by simp
  have t2m: "(MonthFromTime a + (wc + - 1)) mod 12 = (ds_month lo - 2) mod 12"
    unfolding a_def fh i0(2) shifted_index by simp
  have fa: "DateFromTime a = ds_day hi" "TimeWithinDay a = 0" by (simp_all add: a_def fh)
  have A: "add_month a wc = MakeDate anchor 0"
  proof -
    have "add_month a wc =
        MakeDate (clamped_day (YearFromTime a) (MonthFromTime a + wc) (DateFromTime a))
          (TimeWithinDay a)"
    proof (rule add_month_eq)
      show "\<not> (0 \<le> YearFromTime a + (MonthFromTime a + wc) div 12
             \<and> YearFromTime a + (MonthFromTime a + wc) div 12 \<le> 99)"
        unfolding t1 using assms(4) by simp
    qed
    also have "clamped_day (YearFromTime a) (MonthFromTime a + wc) (DateFromTime a) = anchor"
      unfolding anchor_def clamped_day_def Let_def t1 t1m fa small smallm by simp
    finally show ?thesis by (simp add: fa)
  qed
  have A2: "add_month a (wc + - 1) = MakeDate before 0"
  proof -
    have "add_month a (wc + - 1) =
        MakeDate (clamped_day (YearFromTime a) (MonthFromTime a + (wc + - 1)) (DateFromTime a))
          (TimeWithinDay a)"
    proof (rule add_month_eq)
      show "\<not> (0 \<le> YearFromTime a + (MonthFromTime a + (wc + - 1)) div 12
             \<and> YearFromTime a + (MonthFromTime a + (wc + - 1)) div 12 \<le> 99)"
        unfolding t2 using assms(4) prev by simp
    qed
    also have "clamped_day (YearFromTime a) (MonthFromTime a + (wc + - 1)) (DateFromTime a)
        = before"
      unfolding before_def clamped_day_def Let_def t2 t2m fa by simp
    finally show ?thesis by (simp add: fa)
  qed
  have B: "b = MakeDate lo_day 0"
    using yl by (auto simp: b_def dayjs_def new_Date_def Let_def MakeTime_zero lo_day_def)
  have anchor_eq: "anchor = MakeDay (ds_year lo) (ds_month lo - 1)
      (min (ds_day hi) (DaysInMonth (ds_year lo) (ds_month lo - 1)))"
    using ml by (simp add: anchor_def clamped_day_def Let_def div_pos_pos_trivial)
  have le: "lo_day \<le> anchor"
  proof -
    have "ds_day lo \<le> min (ds_day hi) (DaysInMonth (ds_year lo) (ds_month lo - 1))"
      using assms(2,5) by (simp add: isDate_def)
    then show ?thesis
      unfolding anchor_eq lo_day_def MakeDay_small_month [OF ml] by simp
  qed
  have ms: "msPerDay \<noteq> 0" by (simp add: msPerDay_def)
  have nodate: "\<not> DateFromTime a < DateFromTime b"
    using assms(5) by (simp add: a_def b_def fh fl)
  have wcode: "(YearFromTime b - YearFromTime a) * 12 + (MonthFromTime b - MonthFromTime a) = wc"
    by (simp add: a_def b_def fh fl wc_def)
  have unfold: "monthDiff a b =
      - (of_int wc
         + of_int (b - add_month a wc)
           / of_int (if b - add_month a wc < 0
                     then add_month a wc - add_month a (wc + (if b - add_month a wc < 0 then - 1 else 1))
                     else add_month a (wc + (if b - add_month a wc < 0 then - 1 else 1))
                          - add_month a wc))"
    by (subst monthDiff.simps) (simp only: nodate if_False Let_def wcode)
  have c_iff: "b - add_month a wc < 0 \<longleftrightarrow> lo_day < anchor"
    unfolding A B MakeDate_diff using msPerDay_pos by (simp add: mult_less_0_iff)
  have w: "(ds_year hi - ds_year lo) * 12 + (ds_month hi - ds_month lo) = - wc"
    by (simp add: wc_def)
  show ?thesis
  proof (cases "lo_day < anchor")
    case True
    then have c: "b - add_month a wc < 0" using c_iff by simp
    have "monthDiff a b =
        - (of_int wc + of_int ((lo_day - anchor) * msPerDay)
                         / of_int ((anchor - before) * msPerDay))"
      unfolding unfold using c by (simp only: if_True A A2 B MakeDate_diff)
    also have "\<dots> = - (of_int wc + of_int (lo_day - anchor) / of_int (anchor - before))"
      by (simp only: ratio_cancel [OF ms])
    also have "\<dots> = of_int (- wc) + of_int (anchor - lo_day) / of_int (anchor - before)"
      by (simp add: minus_divide_left)
    finally show ?thesis
      using True unfolding calendar_months_def Let_def w
      by (simp add: a_def b_def anchor_def before_def lo_day_def)
  next
    case False
    with le have eq: "lo_day = anchor" by simp
    have "b - add_month a wc = 0" unfolding A B eq by simp
    then have "monthDiff a b = - of_int wc" unfolding unfold by simp
    then show ?thesis
      using False unfolding calendar_months_def Let_def w
      by (simp add: a_def b_def anchor_def before_def lo_day_def)
  qed
qed

lemma diff_year_calendar:
  assumes "isDate s" "isDate e" "101 \<le> ds_year s" "101 \<le> ds_year e"
  shows "diff_year (dayjs e) (dayjs s) = calendar_years s e"
proof (cases "ds_day e < ds_day s")
  case True
  have ys: "\<not> (0 \<le> ds_year s \<and> ds_year s \<le> 99)" using assms(3) by simp
  have ye: "\<not> (0 \<le> ds_year e \<and> ds_year e \<le> 99)" using assms(4) by simp
  have lt: "DateFromTime (dayjs e) < DateFromTime (dayjs s)"
    using True by (simp add: dayjs_fields [OF assms(1) ys] dayjs_fields [OF assms(2) ye])
  have "monthDiff (dayjs e) (dayjs s) = - monthDiff (dayjs s) (dayjs e)"
    by (subst monthDiff.simps) (simp only: lt if_True)
  also have "\<dots> = - calendar_months s e"
    using True by (simp add: monthDiff_calendar [OF assms(1,2,3,4)])
  finally show ?thesis using True by (simp add: diff_year_def calendar_years_def)
next
  case False
  then have "monthDiff (dayjs e) (dayjs s) = calendar_months e s"
    by (intro monthDiff_calendar assms) simp
  then show ?thesis using False by (simp add: diff_year_def calendar_years_def)
qed

subsection \<open>Year count in a zone\<close>

text \<open>With a fixed offset, the operations in a zone are the local ones shifted by it.\<close>

lemma fixed_LocalTime: "LocalTime (fixedZone c) t = t + c"
  by (simp add: LocalTime_def fixedZone_def)

lemma fixed_UTC: "UTC (fixedZone c) t = t - c"
  by (simp add: UTC_def fixedZone_def)

lemma fixed_daysInMonth: "daysInMonth_in (fixedZone c) x = daysInMonth (x + c)"
  by (simp add: daysInMonth_in_def daysInMonth_def endOf_day_in_def endOf_day_def
      setHours_in_def new_Date_in_def fixed_LocalTime fixed_UTC)

lemma fixed_set_month: "set_month_in (fixedZone c) x arg = set_month (x + c) arg - c"
  by (simp add: set_month_in_def set_month_def Let_def setDate_in_def setMonth_in_def
      fixed_LocalTime fixed_UTC fixed_daysInMonth)

lemma fixed_add_month: "add_month_in (fixedZone c) x n = add_month (x + c) n - c"
  by (simp add: add_month_in_def add_month_def fixed_set_month fixed_LocalTime)

lemma fixed_monthDiff_step:
  assumes "\<not> DateFromTime (a + c) < DateFromTime (b + c)"
  shows "monthDiff_in (fixedZone c) a b = monthDiff (a + c) (b + c)"
proof -
  have d: "b - (x - c) = b + c - x" "x - c - (y - c) = x - y" for x y :: int by simp_all
  show ?thesis
    apply (subst monthDiff_in.simps)
    apply (subst monthDiff.simps)
    apply (simp only: fixed_LocalTime assms if_False Let_def fixed_add_month d)
    done
qed

lemma fixed_monthDiff: "monthDiff_in (fixedZone c) a b = monthDiff (a + c) (b + c)"
proof (cases "DateFromTime (a + c) < DateFromTime (b + c)")
  case False
  then show ?thesis by (rule fixed_monthDiff_step)
next
  case True
  then have n: "\<not> DateFromTime (b + c) < DateFromTime (a + c)" by simp
  have "monthDiff_in (fixedZone c) a b = - monthDiff_in (fixedZone c) b a"
    by (subst monthDiff_in.simps) (simp only: fixed_LocalTime True if_True)
  also have "\<dots> = - monthDiff (b + c) (a + c)"
    by (simp only: fixed_monthDiff_step [OF n])
  also have "\<dots> = monthDiff (a + c) (b + c)"
    by (subst (2) monthDiff.simps) (simp only: True if_True)
  finally show ?thesis .
qed

lemma fixed_dayjs: "dayjs_in (fixedZone c) v = dayjs v - c"
  by (simp add: dayjs_in_def dayjs_def new_Date_in_def fixed_UTC)

lemma fixed_calculateValidityPeriod:
  "calculateValidityPeriod_in (fixedZone c) s e = calculateValidityPeriod s e"
  by (simp add: calculateValidityPeriod_in_def calculateValidityPeriod_def Let_def diff_year_def
      fixed_monthDiff fixed_dayjs)

text \<open>
  Where the offset changes, the count is not the calendar one: from 2 September 2026 to 2
  September 2029 in the example zone, the end date is at 01:00 local time and the count is
  one hour of a month above 3, so that the rule of the end date rejects it.
\<close>

lemma calculateValidityPeriod_offset_change:
  "calculateValidityPeriod_in exampleDstZone (mkDate 2026 9 2) (mkDate 2029 9 2) = 3 + 1 / 8928
   \<and> calendar_years (mkDate 2026 9 2) (mkDate 2029 9 2) = 3"
  by code_simp

text \<open>
  Claim C6, amended. In a zone with a fixed offset from UTC, the year count used by
  validation and submission is the calendar count for every two calendar dates from the
  year 101 on: the whole months between the two months, plus the days from the date with
  the smaller day of the month to the anchor as a fraction of the month-long span that ends
  at the anchor, all divided by 12. It is not the elapsed time over a fixed length of the
  year.
\<close>

theorem calculateValidityPeriod_calendar:
  assumes "isDate s" "isDate e" "101 \<le> ds_year s" "101 \<le> ds_year e"
  shows "calculateValidityPeriod_in (fixedZone c) s e = calendar_years s e
         \<and> calculateValidityPeriod s e = calendar_years s e"
  using diff_year_calendar [OF assms]
  by (simp add: fixed_calculateValidityPeriod calculateValidityPeriod_def Let_def)

theorem calculateValidityPeriod_calendar_witness:
  "isDate (mkDate 2026 3 15) \<and> isDate (mkDate 2027 3 1) \<and> isDate (mkDate 2027 3 15)
   \<and> calculateValidityPeriod_in (fixedZone 7200000) (mkDate 2026 3 15) (mkDate 2027 3 1) = 23 / 24
   \<and> calculateValidityPeriod (mkDate 2026 3 15) (mkDate 2027 3 1) = 23 / 24
   \<and> calculateValidityPeriod_in (fixedZone (- 18000000)) (mkDate 2026 3 15) (mkDate 2027 3 15) = 1
   \<and> calculateValidityPeriod (mkDate 2027 3 15) (mkDate 2026 3 15) = - 1"
proof -
  have a: "isDate (mkDate 2026 3 15)" "isDate (mkDate 2027 3 1)" "isDate (mkDate 2027 3 15)"
    by (simp_all add: isDate_def mkDate_def DaysInMonth_def)
  have y: "(101::int) \<le> ds_year (mkDate 2026 3 15)" "(101::int) \<le> ds_year (mkDate 2027 3 1)"
    "(101::int) \<le> ds_year (mkDate 2027 3 15)"
    by (simp_all add: mkDate_def)
  have c: "calendar_years (mkDate 2026 3 15) (mkDate 2027 3 1) = 23 / 24"
    "calendar_years (mkDate 2026 3 15) (mkDate 2027 3 15) = 1"
    "calendar_years (mkDate 2027 3 15) (mkDate 2026 3 15) = - 1"
    by code_simp+
  from calculateValidityPeriod_calendar [OF a(1) a(2) y(1) y(2), of 7200000]
    calculateValidityPeriod_calendar [OF a(1) a(3) y(1) y(3), of "- 18000000"]
    calculateValidityPeriod_calendar [OF a(3) a(1) y(3) y(1), of 0] a c
  show ?thesis by simp
qed

subsection \<open>Request body\<close>






subsection \<open>Minimum start date, two ways\<close>

lemma digit_char_not_T: "d < 10 \<Longrightarrow> digit_char d \<noteq> CHR ''T''"
proof
  assume d: "d < 10" and e: "digit_char d = CHR ''T''"
  have "(of_char (digit_char d) :: nat) = 48 + d"
    using d by (simp add: digit_char_def)
  with e show False using d by simp
qed

lemma string_of_nat_no_T: "CHR ''T'' \<notin> set (string_of_nat n)"
proof (induction n rule: string_of_nat.induct)
  case (1 n)
  show ?case
  proof (cases "n < 10")
    case True
    then show ?thesis using digit_char_not_T [of n] by (subst string_of_nat.simps) auto
  next
    case False
    have "n mod 10 < 10" by simp
    from digit_char_not_T [OF this] "1.IH" [OF False] False
    show ?thesis by (subst string_of_nat.simps) auto
  qed
qed

lemma zero_pad_no_T: "CHR ''T'' \<notin> set (zero_pad len n)"
  using string_of_nat_no_T [of n] by (auto simp: zero_pad_def)

lemma iso_year_no_T: "CHR ''T'' \<notin> set (iso_year y)"
  using zero_pad_no_T by (auto simp: iso_year_def)

lemma takeWhile_prefix:
  "\<forall>c \<in> set xs. P c \<Longrightarrow> \<not> P y \<Longrightarrow> takeWhile P (xs @ y # ys) = xs"
  by (induction xs) auto

lemma split_T_0_toISOString:
  "split_T_0 (toISOString t) =
     iso_year (YearFromTime t) @ ''-'' @ zero_pad 2 (nat (MonthFromTime t + 1)) @ ''-''
       @ zero_pad 2 (nat (DateFromTime t))"
proof -
  define pre where "pre = iso_year (YearFromTime t) @ ''-'' @ zero_pad 2 (nat (MonthFromTime t + 1))
      @ ''-'' @ zero_pad 2 (nat (DateFromTime t))"
  have noT: "\<forall>c \<in> set pre. c \<noteq> CHR ''T''"
    using iso_year_no_T [of "YearFromTime t"] zero_pad_no_T [of 2 "nat (MonthFromTime t + 1)"]
      zero_pad_no_T [of 2 "nat (DateFromTime t)"]
    by (auto simp: pre_def)
  obtain rest where "toISOString t = pre @ CHR ''T'' # rest"
    by (simp add: toISOString_def Let_def pre_def)
  then show ?thesis
    unfolding split_T_0_def pre_def [symmetric] using takeWhile_prefix [OF noT, of "CHR ''T''"]
    by simp
qed

lemma padStart_nonneg: "0 \<le> i \<Longrightarrow> padStart i len = zero_pad len (nat i)"
  by (simp add: padStart_def zero_pad_def String_of_int_def Let_def)

lemma format_YYYY_MM_DD_eq:
  assumes "0 \<le> YearFromTime x" "YearFromTime x \<le> 9999"
  shows "format_YYYY_MM_DD x =
     iso_year (YearFromTime x) @ ''-'' @ zero_pad 2 (nat (MonthFromTime x + 1)) @ ''-''
       @ zero_pad 2 (nat (DateFromTime x))"
proof -
  have m: "0 \<le> MonthFromTime x + 1" using MonthFromTime_range(1) [of x] by simp
  have d: "0 \<le> DateFromTime x" using DateFromTime_range(1) [of x] by simp
  show ?thesis
    using assms by (simp add: format_YYYY_MM_DD_def padStart_nonneg m d iso_year_def)
qed

lemma fields_same_day:
  assumes "Day a = Day b"
  shows "YearFromTime a = YearFromTime b" "MonthFromTime a = MonthFromTime b"
    "DateFromTime a = DateFromTime b"
proof -
  show y: "YearFromTime a = YearFromTime b" by (simp add: YearFromTime_def assms)
  have l: "InLeapYear a = InLeapYear b" by (simp add: InLeapYear_def y)
  have w: "DayWithinYear a = DayWithinYear b" by (simp add: DayWithinYear_def y assms)
  show m: "MonthFromTime a = MonthFromTime b" by (simp add: MonthFromTime_def l w)
  show "DateFromTime a = DateFromTime b" by (simp add: DateFromTime_def l w m)
qed

lemma Day_plus_15_days: "Day (t + 1296000000) = Day t + 15"
proof -
  have e: "t + 1296000000 = t + 15 * msPerDay" by (simp add: msPerDay_def)
  have "(t + 15 * msPerDay) div msPerDay = 15 + t div msPerDay"
    by (rule div_mult_self1) (simp add: msPerDay_def)
  then show ?thesis unfolding Day_def e by simp
qed

text \<open>
  Claim C10, as stated, fails: in a zone two hours ahead of UTC, at 22:30 UTC on 31
  December 2025 (00:30 local time on 1 January 2026), the earlier code gives 15 January
  2026 and \<open>getMinStartDate\<close> gives 16 January 2026.
\<close>

theorem minStartDate_counterexample:
  "minStartDate_legacy 1767220200000 = ''2026-01-15''
   \<and> getMinStartDate (1767220200000 + 7200000) = ''2026-01-16''"
  by code_simp

lemma digits_value_snoc:
  "digits_value (s @ [c]) = 10 * digits_value s + (of_char c - 48)"
  by (simp add: digits_value_def)

lemma digit_char_value: "d < 10 \<Longrightarrow> (of_char (digit_char d) :: nat) - 48 = d"
  by (simp add: digit_char_def)

lemma digits_value_string_of_nat: "digits_value (string_of_nat n) = n"
proof (induction n rule: string_of_nat.induct)
  case (1 n)
  show ?case
  proof (cases "n < 10")
    case True
    then show ?thesis
      by (subst string_of_nat.simps) (simp add: digits_value_def digit_char_value)
  next
    case False
    have m: "n mod 10 < 10" by simp
    have "digits_value (string_of_nat n)
        = digits_value (string_of_nat (n div 10) @ [digit_char (n mod 10)])"
      using False by (subst string_of_nat.simps) simp
    also have "\<dots> = 10 * (n div 10) + n mod 10"
      unfolding digits_value_snoc "1.IH" [OF False] digit_char_value [OF m] ..
    finally show ?thesis by simp
  qed
qed

lemma foldl_zeros:
  "foldl (\<lambda>acc c. 10 * acc + (of_char c - 48)) (0::nat) (replicate k CHR ''0'') = 0"
  by (induction k) simp_all

lemma digits_value_zero_pad: "digits_value (zero_pad len n) = n"
  using digits_value_string_of_nat [of n]
  by (simp add: zero_pad_def digits_value_def foldl_zeros)

lemma length_string_of_nat: "n < 10 ^ k \<Longrightarrow> 0 < k \<Longrightarrow> length (string_of_nat n) \<le> k"
proof (induction k arbitrary: n)
  case 0
  then show ?case by simp
next
  case (Suc k)
  show ?case
  proof (cases "n < 10")
    case True
    then show ?thesis by (subst string_of_nat.simps) simp
  next
    case False
    then have k: "0 < k" using Suc.prems(1) by (cases k) auto
    have "n < 10 ^ k * 10" using Suc.prems(1) by (simp only: power_Suc mult.commute)
    then have "n div 10 < 10 ^ k" by (rule less_mult_imp_div_less)
    from Suc.IH [OF this k] False show ?thesis by (subst string_of_nat.simps) simp
  qed
qed

lemma length_zero_pad:
  assumes "n < 10 ^ len" "0 < len"
  shows "length (zero_pad len n) = len"
  using length_string_of_nat [OF assms] by (simp add: zero_pad_def)

lemma zero_pad_inj:
  "zero_pad len n = zero_pad len m \<Longrightarrow> n = m"
  by (metis digits_value_zero_pad)

lemma Day_of_fields: "Day t = MakeDay (YearFromTime t) (MonthFromTime t) (DateFromTime t)"
  using MakeDay_of_fields [of t 0] by simp

lemma iso_date_inj:
  assumes ya: "0 \<le> YearFromTime a" "YearFromTime a \<le> 9999"
    and yb: "0 \<le> YearFromTime b" "YearFromTime b \<le> 9999"
    and eq: "iso_year (YearFromTime a) @ ''-'' @ zero_pad 2 (nat (MonthFromTime a + 1)) @ ''-''
               @ zero_pad 2 (nat (DateFromTime a))
           = iso_year (YearFromTime b) @ ''-'' @ zero_pad 2 (nat (MonthFromTime b + 1)) @ ''-''
               @ zero_pad 2 (nat (DateFromTime b))"
  shows "Day a = Day b"
proof -
  have range: "nat (MonthFromTime t + 1) < 10 ^ 2" "nat (DateFromTime t) < 10 ^ 2" for t
    using MonthFromTime_range [of t] DateFromTime_range [of t]
      DaysInMonth_range(2) [of "YearFromTime t" "MonthFromTime t"] by simp_all
  have ly: "length (zero_pad 4 (nat (YearFromTime a))) = length (zero_pad 4 (nat (YearFromTime b)))"
    using ya yb by (simp add: length_zero_pad)
  have lm: "length (zero_pad 2 (nat (MonthFromTime a + 1)))
      = length (zero_pad 2 (nat (MonthFromTime b + 1)))"
    using range by (simp add: length_zero_pad)
  from eq have e: "zero_pad 4 (nat (YearFromTime a)) @ (''-'' @ zero_pad 2 (nat (MonthFromTime a + 1))
        @ ''-'' @ zero_pad 2 (nat (DateFromTime a)))
      = zero_pad 4 (nat (YearFromTime b)) @ (''-'' @ zero_pad 2 (nat (MonthFromTime b + 1))
        @ ''-'' @ zero_pad 2 (nat (DateFromTime b)))"
    using ya yb by (simp add: iso_year_def)
  from e ly have y: "zero_pad 4 (nat (YearFromTime a)) = zero_pad 4 (nat (YearFromTime b))"
    and r: "zero_pad 2 (nat (MonthFromTime a + 1)) @ (''-'' @ zero_pad 2 (nat (DateFromTime a)))
      = zero_pad 2 (nat (MonthFromTime b + 1)) @ (''-'' @ zero_pad 2 (nat (DateFromTime b)))"
    by simp_all
  from r lm have m: "zero_pad 2 (nat (MonthFromTime a + 1)) = zero_pad 2 (nat (MonthFromTime b + 1))"
    and d: "zero_pad 2 (nat (DateFromTime a)) = zero_pad 2 (nat (DateFromTime b))"
    by simp_all
  have "YearFromTime a = YearFromTime b" using zero_pad_inj [OF y] ya yb by simp
  moreover have "MonthFromTime a = MonthFromTime b"
    using zero_pad_inj [OF m] MonthFromTime_range(1) [of a] MonthFromTime_range(1) [of b] by simp
  moreover have "DateFromTime a = DateFromTime b"
    using zero_pad_inj [OF d] DateFromTime_range(1) [of a] DateFromTime_range(1) [of b] by simp
  ultimately show ?thesis by (simp add: Day_of_fields)
qed

text \<open>
  Claim C10, amended. With \<open>utc_now\<close> the value of \<^verbatim>\<open>Date.now()\<close> and \<open>tza\<close> the
  offset of local time from UTC in milliseconds, and the year of both results from 0 to
  9999, the two computations give the same text exactly when the local calendar day of the
  instant is its UTC calendar day (always, when the offset is zero); at every other instant
  the two texts differ.
\<close>

theorem minStartDate_agree_iff:
  assumes "0 \<le> YearFromTime (utc_now + 1296000000)" "YearFromTime (utc_now + 1296000000) \<le> 9999"
    and "0 \<le> YearFromTime (utc_now + tza + 1296000000)"
      "YearFromTime (utc_now + tza + 1296000000) \<le> 9999"
  shows "minStartDate_legacy utc_now = getMinStartDate (utc_now + tza)
           \<longleftrightarrow> Day (utc_now + tza) = Day utc_now"
proof -
  define u where "u = utc_now + 1296000000"
  define l where "l = add_day (utc_now + tza) MIN_DAYS_FROM_NOW"
  have dl: "Day l = Day (utc_now + tza) + 15"
    by (simp add: l_def Day_add_day MIN_DAYS_FROM_NOW_def)
  have du: "Day u = Day utc_now + 15" by (simp add: u_def Day_plus_15_days)
  have "Day l = Day (utc_now + tza + 1296000000)" by (simp add: dl Day_plus_15_days)
  note fl = fields_same_day [OF this]
  have yl: "0 \<le> YearFromTime l" "YearFromTime l \<le> 9999" using assms(3,4) by (simp_all add: fl)
  have yu: "0 \<le> YearFromTime u" "YearFromTime u \<le> 9999" using assms(1,2) by (simp_all add: u_def)
  have legacy: "minStartDate_legacy utc_now =
      iso_year (YearFromTime u) @ ''-'' @ zero_pad 2 (nat (MonthFromTime u + 1)) @ ''-''
        @ zero_pad 2 (nat (DateFromTime u))"
    by (simp add: minStartDate_legacy_def split_T_0_toISOString u_def)
  have current: "getMinStartDate (utc_now + tza) =
      iso_year (YearFromTime l) @ ''-'' @ zero_pad 2 (nat (MonthFromTime l + 1)) @ ''-''
        @ zero_pad 2 (nat (DateFromTime l))"
    using format_YYYY_MM_DD_eq [OF yl] by (simp add: getMinStartDate_def l_def Let_def)
  show ?thesis
  proof
    assume "minStartDate_legacy utc_now = getMinStartDate (utc_now + tza)"
    then have "Day u = Day l" unfolding legacy current by (rule iso_date_inj [OF yu yl])
    then show "Day (utc_now + tza) = Day utc_now" using dl du by simp
  next
    assume "Day (utc_now + tza) = Day utc_now"
    then have "Day u = Day l" using dl du by simp
    then show "minStartDate_legacy utc_now = getMinStartDate (utc_now + tza)"
      unfolding legacy current using fields_same_day [of u l] by simp
  qed
qed

theorem minStartDate_agree_iff_witness:
  "Day (1767182400000 + 7200000) = Day 1767182400000
   \<and> minStartDate_legacy 1767182400000 = getMinStartDate (1767182400000 + 7200000)
   \<and> Day (1767220200000 + 7200000) \<noteq> Day 1767220200000
   \<and> minStartDate_legacy 1767220200000 \<noteq> getMinStartDate (1767220200000 + 7200000)"
proof -
  have d: "Day (1767182400000 + 7200000) = Day 1767182400000" by code_simp
  have n: "Day (1767220200000 + 7200000) \<noteq> Day 1767220200000" by code_simp
  have y: "0 \<le> YearFromTime (1767182400000 + 1296000000)"
    "YearFromTime (1767182400000 + 1296000000) \<le> 9999"
    "0 \<le> YearFromTime (1767182400000 + 7200000 + 1296000000)"
    "YearFromTime (1767182400000 + 7200000 + 1296000000) \<le> 9999"
    "0 \<le> YearFromTime (1767220200000 + 1296000000)"
    "YearFromTime (1767220200000 + 1296000000) \<le> 9999"
    "0 \<le> YearFromTime (1767220200000 + 7200000 + 1296000000)"
    "YearFromTime (1767220200000 + 7200000 + 1296000000) \<le> 9999" by code_simp+
  from minStartDate_agree_iff [OF y(1,2,3,4)] minStartDate_agree_iff [OF y(5,6,7,8)] d n
  show ?thesis by blast
qed

subsection \<open>Whole years\<close>

lemma MakeDay_later_year:
  assumes "0 \<le> m" "m \<le> 11" "y < y'"
  shows "MakeDay y m d < MakeDay y' m d"
proof -
  have "DayFromYear (y + 1) \<le> DayFromYear y'"
    using assms(3) by (intro DayFromYear_le) simp
  then have far: "DayFromYear y + 365 \<le> DayFromYear y'"
    using DayFromYear_step [of y] DaysInYear_range [of y] by auto
  define l :: int where "l = (if DaysInYear y = 366 then 1 else 0)"
  define l' :: int where "l' = (if DaysInYear y' = 366 then 1 else 0)"
  have "l = 0 \<or> l = 1" "l' = 0 \<or> l' = 1" by (simp_all add: l_def l'_def)
  then have near: "DayFromMonth m l \<le> DayFromMonth m l' + 1"
    by (auto simp: DayFromMonth_def)
  from far near show ?thesis
    unfolding MakeDay_small_month [OF assms(1,2)] l_def [symmetric] l'_def [symmetric] by simp
qed

text \<open>
  An end date one, two or three calendar years after the start date, on the same day of
  the same month, always passes: the count is exactly that number of years.
\<close>

lemma whole_years_pass:
  assumes "isDate s" "100 \<le> ds_year s" "isDate (s\<lparr>ds_year := ds_year s + k\<rparr>)"
    and "1 \<le> k" "k \<le> 3"
  shows "calculateValidityPeriod s (s\<lparr>ds_year := ds_year s + k\<rparr>) = of_int k"
    and "endDate_errors (Some s) (Some (s\<lparr>ds_year := ds_year s + k\<rparr>)) = []"
proof -
  define e where "e = s\<lparr>ds_year := ds_year s + k\<rparr>"
  have ye: "100 \<le> ds_year e" using assms(2,4) by (simp add: e_def)
  have "diff_year (dayjs e) (dayjs s) =
      of_int ((ds_year e - ds_year s) * 12 + (ds_month e - ds_month s)) / 12"
    using assms(1,3) ye by (intro diff_year_same_day assms(2)) (simp_all add: e_def)
  then have v: "calculateValidityPeriod s e = of_int k"
    by (simp add: e_def calculateValidityPeriod_def Let_def)
  have m: "0 \<le> ds_month s - 1" "ds_month s - 1 \<le> 11" using assms(1) by (simp_all add: isDate_def)
  have "MakeDay (ds_year s) (ds_month s - 1) (ds_day s)
      < MakeDay (ds_year s + k) (ds_month s - 1) (ds_day s)"
    using assms(4) by (intro MakeDay_later_year m) simp
  then have lt: "dayjs s < dayjs e"
    using assms(2,4) msPerDay_pos
    by (simp add: dayjs_def new_Date_def Let_def MakeDate_def MakeTime_zero e_def)
  show "calculateValidityPeriod s (s\<lparr>ds_year := ds_year s + k\<rparr>) = of_int k"
    using v by (simp add: e_def)
  show "endDate_errors (Some s) (Some (s\<lparr>ds_year := ds_year s + k\<rparr>)) = []"
    using validity_period_test_Valid_iff [of s e] v lt assms(4,5)
    by (simp add: e_def endDate_errors_Valid_iff)
qed

subsection \<open>The earlier revisions\<close>

text \<open>
  The earlier schema accepted every start date, and measured the period from 1 July 2025
  whatever the start date of the form. The current code differs on both points.
\<close>

lemma startDate_errors_legacy_any: "startDate_errors_legacy (Some v) = []"
  by (simp add: startDate_errors_legacy_def date_required_def)

lemma validity_period_test_legacy_differs:
  "validity_period_test_legacy (Some (mkDate 2026 7 1)) = Valid
   \<and> validity_period_test (Some (mkDate 2026 3 15)) (Some (mkDate 2026 7 1))
       = CreateError ''Validity period must be at least 1 year''"
  by code_simp

end
